theory Spec2Isabelle
  imports Main "HOL-Library.Sublist"
begin

section \<open>JavaScript values used by the settings code\<close>

text \<open>
  The time helpers of \<^verbatim>\<open>Settings.tsx\<close> and \<^verbatim>\<open>SmartWarmup.tsx\<close> parse a string with
  \<^verbatim>\<open>s.split(':').map(Number)\<close> and compute on the resulting numbers. A JavaScript number is
  modelled as an integer or \<^verbatim>\<open>NaN\<close>; \<^verbatim>\<open>undefined\<close> (a destructured array position that
  does not exist) is \<open>None\<close> of an option.

  \<^verbatim>\<open>Number(s)\<close> is modelled on the strings these helpers meet: the empty string is 0, a string
  of decimal digits is its value, everything else is \<^verbatim>\<open>NaN\<close>. That is exact for the values
  of a time input (the empty string or \<^verbatim>\<open>HH:MM\<close>) and for non-numeric text; signs, fractions,
  exponents, radix prefixes and surrounding white space are not recognised by the model.
\<close>

datatype jsnum = JNaN | JNum int

datatype js_error = TypeError

definition is_digit :: "char \<Rightarrow> bool" where
  "is_digit c = (48 \<le> (of_char c :: nat) \<and> (of_char c :: nat) \<le> 57)"

definition digit_val :: "char \<Rightarrow> nat" where
  "digit_val c = (of_char c :: nat) - 48"

definition digit_char :: "nat \<Rightarrow> char" where
  "digit_char d = char_of (48 + d)"

definition js_Number :: "string \<Rightarrow> jsnum" where
  "js_Number s =
     (if s = [] then JNum 0
      else if list_all is_digit s then JNum (int (foldl (\<lambda>a c. 10 * a + digit_val c) 0 s))
      else JNaN)"

text \<open>\<^verbatim>\<open>s.split(sep)\<close> for a one-character separator: always at least one piece.\<close>

fun js_split :: "char \<Rightarrow> string \<Rightarrow> string list" where
  "js_split sep [] = [[]]"
| "js_split sep (c # cs) =
     (if c = sep then [] # js_split sep cs
      else (case js_split sep cs of
              [] \<Rightarrow> [[c]]
            | w # ws \<Rightarrow> (c # w) # ws))"

text \<open>\<^verbatim>\<open>const [h, m] = xs\<close>: a missing position is \<^verbatim>\<open>undefined\<close>.\<close>

fun destructure2 :: "'a list \<Rightarrow> 'a option \<times> 'a option" where
  "destructure2 [] = (None, None)"
| "destructure2 [h] = (Some h, None)"
| "destructure2 (h # m # _) = (Some h, Some m)"

text \<open>An operand of an arithmetic operator is converted to a number; \<^verbatim>\<open>undefined\<close> gives \<^verbatim>\<open>NaN\<close>.\<close>

fun to_number :: "jsnum option \<Rightarrow> jsnum" where
  "to_number None = JNaN"
| "to_number (Some x) = x"

fun js_add :: "jsnum \<Rightarrow> jsnum \<Rightarrow> jsnum" where
  "js_add (JNum a) (JNum b) = JNum (a + b)"
| "js_add _ _ = JNaN"

fun js_sub :: "jsnum \<Rightarrow> jsnum \<Rightarrow> jsnum" where
  "js_sub (JNum a) (JNum b) = JNum (a - b)"
| "js_sub _ _ = JNaN"

fun js_mul :: "jsnum \<Rightarrow> jsnum \<Rightarrow> jsnum" where
  "js_mul (JNum a) (JNum b) = JNum (a * b)"
| "js_mul _ _ = JNaN"

fun js_abs :: "jsnum \<Rightarrow> jsnum" where
  "js_abs (JNum a) = JNum \<bar>a\<bar>"
| "js_abs JNaN = JNaN"

text \<open>Comparisons with \<^verbatim>\<open>NaN\<close> are false.\<close>

fun js_lt :: "jsnum \<Rightarrow> jsnum \<Rightarrow> bool" where
  "js_lt (JNum a) (JNum b) = (a < b)"
| "js_lt _ _ = False"

fun js_gt :: "jsnum \<Rightarrow> jsnum \<Rightarrow> bool" where
  "js_gt (JNum a) (JNum b) = (a > b)"
| "js_gt _ _ = False"

fun js_ge :: "jsnum \<Rightarrow> jsnum \<Rightarrow> bool" where
  "js_ge (JNum a) (JNum b) = (a \<ge> b)"
| "js_ge _ _ = False"

text \<open>\<^verbatim>\<open>Math.floor(x / d)\<close> for a positive integer constant \<open>d\<close>, and the remainder \<^verbatim>\<open>x % d\<close>,
  which takes the sign of the dividend.\<close>

fun js_floor_div :: "jsnum \<Rightarrow> int \<Rightarrow> jsnum" where
  "js_floor_div (JNum a) d = JNum (a div d)"
| "js_floor_div JNaN d = JNaN"

fun js_rem :: "jsnum \<Rightarrow> int \<Rightarrow> jsnum" where
  "js_rem (JNum a) d = JNum (if 0 \<le> a then a mod d else - ((- a) mod d))"
| "js_rem JNaN d = JNaN"

text \<open>\<^verbatim>\<open>n.toString()\<close> in decimal and \<^verbatim>\<open>s.padStart(n, c)\<close>.\<close>

fun dec_string :: "nat \<Rightarrow> string" where
  "dec_string n =
     (if n < 10 then [digit_char n] else dec_string (n div 10) @ [digit_char (n mod 10)])"

declare dec_string.simps [simp del]

fun js_toString :: "jsnum \<Rightarrow> string" where
  "js_toString JNaN = ''NaN''"
| "js_toString (JNum a) = (if a < 0 then ''-'' @ dec_string (nat (- a)) else dec_string (nat a))"

definition padStart :: "nat \<Rightarrow> char \<Rightarrow> string \<Rightarrow> string" where
  "padStart n c s = replicate (n - length s) c @ s"

section \<open>Times of day\<close>

text \<open>\<^verbatim>\<open>const [h, m] = s.split(':').map(Number); h * 60 + m\<close>, the parse shared by
  \<^verbatim>\<open>updateTimePoint\<close> and \<^verbatim>\<open>calculateWarmupTime\<close>.\<close>

definition split_hm :: "string \<Rightarrow> jsnum option \<times> jsnum option" where
  "split_hm s = destructure2 (map js_Number (js_split CHR '':'' s))"

definition time_minutes :: "string \<Rightarrow> jsnum" where
  "time_minutes s =
     (case split_hm s of (h, m) \<Rightarrow> js_add (js_mul (to_number h) (JNum 60)) (to_number m))"

text \<open>Lines 460-461 of \<^verbatim>\<open>Settings.tsx\<close>:
  \<^verbatim>\<open>let diff = Math.abs(newMinutes - otherMinutes); if (diff > 720) diff = 1440 - diff;\<close>\<close>

definition interval_diff :: "jsnum \<Rightarrow> jsnum \<Rightarrow> jsnum" where
  "interval_diff newMinutes otherMinutes =
     (let diff = js_abs (js_sub newMinutes otherMinutes)
      in if js_gt diff (JNum 720) then js_sub (JNum 1440) diff else diff)"

text \<open>\<^verbatim>\<open>calculateWarmupTime\<close> of \<^verbatim>\<open>SmartWarmup.tsx\<close> (lines 78-85).\<close>

definition calculateWarmupTime :: "string \<Rightarrow> string" where
  "calculateWarmupTime peakTime =
     (let peakMinutes = time_minutes peakTime;
          warmupMinutes =
            (if js_ge peakMinutes (JNum 300) then js_sub peakMinutes (JNum 300)
             else js_sub (js_add (JNum 1440) peakMinutes) (JNum 300));
          warmupH = js_floor_div warmupMinutes 60;
          warmupM = js_rem warmupMinutes 60
      in padStart 2 CHR ''0'' (js_toString warmupH) @ '':'' @ padStart 2 CHR ''0'' (js_toString warmupM))"

text \<open>\<^verbatim>\<open>getWarmupTime\<close> of \<^verbatim>\<open>Settings.tsx\<close> (lines 428-434). \<^verbatim>\<open>m.toString()\<close> throws a
  \<^verbatim>\<open>TypeError\<close> when the string has no colon, because \<^verbatim>\<open>m\<close> is then \<^verbatim>\<open>undefined\<close>.\<close>

definition getWarmupTime :: "string \<Rightarrow> js_error + string" where
  "getWarmupTime peakTime =
     (if peakTime = [] then Inr ''--:--''
      else (case split_hm peakTime of (h, m) \<Rightarrow>
        (let warmupHour0 = js_sub (to_number h) (JNum 5);
             warmupHour = (if js_lt warmupHour0 (JNum 0) then js_add warmupHour0 (JNum 24) else warmupHour0)
         in (case m of
               None \<Rightarrow> Inl TypeError
             | Some mv \<Rightarrow>
                 Inr (padStart 2 CHR ''0'' (js_toString warmupHour) @ '':'' @ padStart 2 CHR ''0'' (js_toString mv))))))"

text \<open>The two-digit clock string of an hour and a minute, and of a minute of the day: the
  form in which a time input reports its value.\<close>

definition hhmm :: "nat \<Rightarrow> nat \<Rightarrow> string" where
  "hhmm h m = padStart 2 CHR ''0'' (dec_string h) @ '':'' @ padStart 2 CHR ''0'' (dec_string m)"

definition clock :: "nat \<Rightarrow> string" where
  "clock t = hhmm (t div 60) (t mod 60)"

section \<open>JavaScript arrays\<close>

text \<open>
  An array position holds an element, the value \<^verbatim>\<open>undefined\<close>, or nothing at all (a hole, left
  by an assignment past the end). Reading a hole gives \<^verbatim>\<open>undefined\<close>, the spread \<^verbatim>\<open>[...xs]\<close>
  turns holes into \<^verbatim>\<open>undefined\<close>, and the callbacks of \<^verbatim>\<open>some\<close> and \<^verbatim>\<open>filter\<close> skip holes.
\<close>

datatype 'a slot = Hole | Undefined | Elem 'a

fun spread_slot :: "'a slot \<Rightarrow> 'a slot" where
  "spread_slot Hole = Undefined"
| "spread_slot Undefined = Undefined"
| "spread_slot (Elem x) = Elem x"

fun slot_value :: "'a slot \<Rightarrow> 'a option" where
  "slot_value (Elem x) = Some x"
| "slot_value _ = None"

definition js_index :: "'a slot list \<Rightarrow> nat \<Rightarrow> 'a option" where
  "js_index xs i = (if i < length xs then slot_value (xs ! i) else None)"

definition js_assign :: "'a slot list \<Rightarrow> nat \<Rightarrow> 'a \<Rightarrow> 'a slot list" where
  "js_assign xs i v =
     (if i < length xs then xs[i := Elem v]
      else xs @ replicate (i - length xs) Hole @ [Elem v])"

section \<open>The configuration\<close>

text \<open>
  The type declarations (\<^verbatim>\<open>types/config\<close>) are not part of the sources at hand; the records
  hold the fields the components read and write, optional where the code guards against
  \<^verbatim>\<open>undefined\<close>. The fields \<open>tr_start\<close>, \<open>tr_end\<close>, \<open>tr_enabled\<close> are \<^verbatim>\<open>start\<close>, \<^verbatim>\<open>end\<close>
  and \<^verbatim>\<open>enabled\<close> of a schedule entry.
\<close>

record TimeRange =
  tr_start :: string
  tr_end :: string
  tr_enabled :: "bool option"

datatype warmup_mode = immediate | peak_based

record ScheduledWarmupConfig =
  enabled :: bool
  schedules :: "(string \<rightharpoonup> TimeRange slot list) option"
  monitored_models :: "string list option"
  peak_hours :: "string slot list option"
  warmup_mode :: "warmup_mode option"

record TokenPoolConfig =
  auto_connect :: bool
  server_url :: "string option"

record AppConfig =
  scheduled_warmup :: "ScheduledWarmupConfig option"
  token_pool :: "TokenPoolConfig option"

section \<open>The settings page (\<^verbatim>\<open>Settings.tsx\<close>)\<close>

text \<open>The state of the page: the form data, and the toasts shown so far.\<close>

record SettingsState =
  formData :: AppConfig
  toasts :: "(string \<times> string) list"

definition defaultTimes :: "TimeRange slot list" where
  "defaultTimes =
     [Elem \<lparr>tr_start = ''10:00'', tr_end = ''10:00'', tr_enabled = Some True\<rparr>,
      Elem \<lparr>tr_start = ''15:00'', tr_end = ''15:00'', tr_enabled = Some True\<rparr>,
      Elem \<lparr>tr_start = ''21:00'', tr_end = ''21:00'', tr_enabled = Some True\<rparr>]"

definition defaultSchedules :: "string \<rightharpoonup> TimeRange slot list" where
  "defaultSchedules = [''default'' \<mapsto> defaultTimes]"

text \<open>The initial form data (lines 16-45), as far as the warmup settings go.\<close>

definition initialFormData :: AppConfig where
  "initialFormData =
     \<lparr>scheduled_warmup =
        Some \<lparr>enabled = False, schedules = Some defaultSchedules, monitored_models = None,
              peak_hours = None, warmup_mode = None\<rparr>,
      token_pool = None\<rparr>"

text \<open>\<^verbatim>\<open>existingSchedules['default'].some(s => s.start)\<close>: holes are skipped, and reading
  \<^verbatim>\<open>start\<close> of \<^verbatim>\<open>undefined\<close> throws.\<close>

fun some_start :: "TimeRange slot list \<Rightarrow> js_error + bool" where
  "some_start [] = Inr False"
| "some_start (Hole # xs) = some_start xs"
| "some_start (Undefined # xs) = Inl TypeError"
| "some_start (Elem s # xs) = (if tr_start s \<noteq> [] then Inr True else some_start xs)"

definition hasExistingSchedules :: "(string \<rightharpoonup> TimeRange slot list) option \<Rightarrow> js_error + bool" where
  "hasExistingSchedules existingSchedules =
     (case existingSchedules of
        None \<Rightarrow> Inr False
      | Some sch \<Rightarrow>
          (case sch ''default'' of
             None \<Rightarrow> Inr False
           | Some ts \<Rightarrow> if length ts > 0 then some_start ts else Inr False))"

text \<open>The \<^verbatim>\<open>onChange\<close> handler of the enable switch (lines 384-405). An exception leaves the
  handler before \<^verbatim>\<open>setFormData\<close> is reached.\<close>

definition scheduled_warmup_onChange :: "bool \<Rightarrow> SettingsState \<Rightarrow> js_error + SettingsState" where
  "scheduled_warmup_onChange checked st =
     (let existingSchedules =
            (case scheduled_warmup (formData st) of None \<Rightarrow> None | Some sw \<Rightarrow> schedules sw);
          spread =
            (case scheduled_warmup (formData st) of
               None \<Rightarrow> \<lparr>enabled = checked, schedules = None, monitored_models = None,
                         peak_hours = None, warmup_mode = None\<rparr>
             | Some sw \<Rightarrow> sw)
      in case hasExistingSchedules existingSchedules of
           Inl e \<Rightarrow> Inl e
         | Inr has \<Rightarrow>
             Inr (st\<lparr>formData := (formData st)\<lparr>scheduled_warmup :=
                    Some (spread\<lparr>enabled := checked,
                                 schedules := (if has then existingSchedules else Some defaultSchedules)\<rparr>)\<rparr>\<rparr>))"

text \<open>\<^verbatim>\<open>updateTimePoint\<close> (lines 437-484) of the row \<open>idx\<close>. Its argument has an optional
  \<^verbatim>\<open>start\<close> and an optional \<^verbatim>\<open>enabled\<close>.\<close>

record updates =
  u_start :: "string option"
  u_enabled :: "bool option"

definition currentTimes :: "AppConfig \<Rightarrow> TimeRange slot list" where
  "currentTimes fd =
     (case scheduled_warmup fd of
        None \<Rightarrow> defaultTimes
      | Some sw \<Rightarrow>
          (case schedules sw of
             None \<Rightarrow> defaultTimes
           | Some sch \<Rightarrow> (case sch ''default'' of None \<Rightarrow> defaultTimes | Some ts \<Rightarrow> ts)))"

text \<open>The body of the loop for one other entry: is it compared, and is it too close?\<close>

definition too_close :: "jsnum \<Rightarrow> TimeRange option \<Rightarrow> bool" where
  "too_close newMinutes other =
     (case other of
        None \<Rightarrow> False
      | Some other \<Rightarrow>
          if tr_start other = [] \<or> tr_enabled other = Some False then False
          else (let otherMinutes = time_minutes (tr_start other);
                    diff = interval_diff newMinutes otherMinutes;
                    minInterval = JNum (5 * 60)
                in js_lt diff minInterval))"

text \<open>The loop \<^verbatim>\<open>for (let i = 0; i < newTimes.length; i++)\<close>, from position \<open>i\<close> on: true when it
  leaves through the toast and \<^verbatim>\<open>return\<close>.\<close>

function interval_conflict :: "nat \<Rightarrow> jsnum \<Rightarrow> TimeRange slot list \<Rightarrow> nat \<Rightarrow> bool" where
  "interval_conflict idx newMinutes newTimes i =
     (if i < length newTimes then
        (if i = idx then interval_conflict idx newMinutes newTimes (i + 1)
         else if too_close newMinutes (js_index newTimes i) then True
         else interval_conflict idx newMinutes newTimes (i + 1))
      else False)"
  by pat_completeness auto
termination
  by (relation "measure (\<lambda>(idx, newMinutes, newTimes, i). length newTimes - i)") auto

declare interval_conflict.simps [simp del]

definition interval_error :: "string \<times> string" where
  "interval_error = (''settings.account.scheduled_warmup.interval_error'', ''error'')"

definition validation_rejects :: "nat \<Rightarrow> updates \<Rightarrow> SettingsState \<Rightarrow> bool" where
  "validation_rejects idx upd st =
     (let newTimes = map spread_slot (currentTimes (formData st))
      in case u_start upd of
           None \<Rightarrow> False
         | Some newTimeStr \<Rightarrow> interval_conflict idx (time_minutes newTimeStr) newTimes 0)"

text \<open>The entry written to \<^verbatim>\<open>newTimes[idx]\<close> (lines 471-476); \<open>old\<close> is the entry found there.\<close>

definition merged_entry :: "updates \<Rightarrow> TimeRange option \<Rightarrow> TimeRange" where
  "merged_entry upd old =
     \<lparr>tr_start =
        (case u_start upd of
           Some s \<Rightarrow> s
         | None \<Rightarrow> (case old of Some e \<Rightarrow> tr_start e | None \<Rightarrow> [])),
      tr_end =
        (case u_start upd of
           Some s \<Rightarrow> s
         | None \<Rightarrow> (case old of Some e \<Rightarrow> tr_end e | None \<Rightarrow> [])),
      tr_enabled =
        Some (case u_enabled upd of
                Some b \<Rightarrow> b
              | None \<Rightarrow>
                  (case old of
                     Some e \<Rightarrow> (case tr_enabled e of Some b \<Rightarrow> b | None \<Rightarrow> True)
                   | None \<Rightarrow> True))\<rparr>"

definition updateTimePoint :: "nat \<Rightarrow> updates \<Rightarrow> SettingsState \<Rightarrow> SettingsState" where
  "updateTimePoint idx upd st =
     (let newTimes = map spread_slot (currentTimes (formData st))
      in if validation_rejects idx upd st then st\<lparr>toasts := toasts st @ [interval_error]\<rparr>
         else
           (let newTimes = js_assign newTimes idx (merged_entry upd (js_index newTimes idx))
            in st\<lparr>formData := (formData st)\<lparr>scheduled_warmup :=
                    Some \<lparr>enabled = True,
                          schedules = Some [''default'' \<mapsto> newTimes],
                          monitored_models = None, peak_hours = None, warmup_mode = None\<rparr>\<rparr>\<rparr>))"

section \<open>The smart-warmup panel (\<^verbatim>\<open>SmartWarmup.tsx\<close>)\<close>

text \<open>
  Each handler of the component receives the \<^verbatim>\<open>config\<close> property and either calls
  \<^verbatim>\<open>onChange\<close> with a new configuration or returns without calling it. The model returns the
  configuration the parent holds afterwards: the argument of \<^verbatim>\<open>onChange\<close>, or \<open>config\<close> itself.
\<close>

definition warmupModelsOptions :: "(string \<times> string) list" where
  "warmupModelsOptions =
     [(''gemini-3-flash'', ''Gemini 3 Flash''),
      (''gemini-3-pro-high'', ''Gemini 3 Pro High''),
      (''claude-sonnet-4-5'', ''Claude 4.5 Sonnet''),
      (''gemini-3-pro-image'', ''Gemini 3 Pro Image'')]"

definition defaultPeakHours :: "string slot list" where
  "defaultPeakHours = [Elem ''10:00'', Elem ''15:00'', Elem ''20:00'']"

text \<open>\<^verbatim>\<open>config.peak_hours || [...]\<close>: an array, even an empty one, is truthy.\<close>

definition peakHours :: "ScheduledWarmupConfig \<Rightarrow> string slot list" where
  "peakHours config = (case peak_hours config of None \<Rightarrow> defaultPeakHours | Some hs \<Rightarrow> hs)"

definition handleEnabledChange :: "bool \<Rightarrow> ScheduledWarmupConfig \<Rightarrow> ScheduledWarmupConfig" where
  "handleEnabledChange en config =
     (let newConfig = config\<lparr>enabled := en\<rparr>;
          newConfig =
            (if en \<and> (case monitored_models config of None \<Rightarrow> True | Some ms \<Rightarrow> length ms = 0)
             then newConfig\<lparr>monitored_models := Some (map fst warmupModelsOptions)\<rparr>
             else newConfig);
          newConfig =
            (if (case peak_hours newConfig of None \<Rightarrow> True | Some hs \<Rightarrow> length hs = 0)
             then newConfig\<lparr>peak_hours := Some defaultPeakHours\<rparr>
             else newConfig);
          newConfig =
            (if warmup_mode newConfig = None then newConfig\<lparr>warmup_mode := Some peak_based\<rparr>
             else newConfig)
      in newConfig)"

definition toggleModel :: "string \<Rightarrow> ScheduledWarmupConfig \<Rightarrow> ScheduledWarmupConfig" where
  "toggleModel model config =
     (let currentModels = (case monitored_models config of None \<Rightarrow> [] | Some ms \<Rightarrow> ms)
      in if model \<in> set currentModels then
           (if length currentModels \<le> 1 then config
            else config\<lparr>monitored_models := Some (filter (\<lambda>m. m \<noteq> model) currentModels)\<rparr>)
         else config\<lparr>monitored_models := Some (currentModels @ [model])\<rparr>)"

definition handleModeChange :: "warmup_mode \<Rightarrow> ScheduledWarmupConfig \<Rightarrow> ScheduledWarmupConfig" where
  "handleModeChange mode config = config\<lparr>warmup_mode := Some mode\<rparr>"

definition handlePeakHourChange :: "nat \<Rightarrow> string \<Rightarrow> ScheduledWarmupConfig \<Rightarrow> ScheduledWarmupConfig" where
  "handlePeakHourChange index v config =
     (let newPeakHours = js_assign (map spread_slot (peakHours config)) index v
      in config\<lparr>peak_hours := Some newPeakHours\<rparr>)"

definition addPeakHour :: "ScheduledWarmupConfig \<Rightarrow> ScheduledWarmupConfig" where
  "addPeakHour config =
     (if length (peakHours config) \<ge> 6 then config
      else config\<lparr>peak_hours := Some (map spread_slot (peakHours config) @ [Elem ''12:00''])\<rparr>)"

text \<open>\<^verbatim>\<open>peakHours.filter((_, i) => i !== index)\<close>, from position \<open>i\<close> on: the callback sees
  the positions of the array filtered, and holes are dropped.\<close>

fun filter_index :: "nat \<Rightarrow> nat \<Rightarrow> 'a slot list \<Rightarrow> 'a slot list" where
  "filter_index i index [] = []"
| "filter_index i index (x # xs) =
     (if x \<noteq> Hole \<and> i \<noteq> index then x # filter_index (Suc i) index xs
      else filter_index (Suc i) index xs)"

definition removePeakHour :: "nat \<Rightarrow> ScheduledWarmupConfig \<Rightarrow> ScheduledWarmupConfig" where
  "removePeakHour index config =
     (if length (peakHours config) \<le> 1 then config
      else (let newPeakHours = filter_index 0 index (peakHours config)
            in config\<lparr>peak_hours := Some newPeakHours\<rparr>))"

text \<open>The events of the panel, and a run of them.\<close>

datatype panel_event =
    EnabledChange bool
  | ToggleModel string
  | ModeChange warmup_mode
  | PeakHourChange nat string
  | AddPeakHour
  | RemovePeakHour nat

fun panel_step :: "ScheduledWarmupConfig \<Rightarrow> panel_event \<Rightarrow> ScheduledWarmupConfig" where
  "panel_step config (EnabledChange en) = handleEnabledChange en config"
| "panel_step config (ToggleModel model) = toggleModel model config"
| "panel_step config (ModeChange mode) = handleModeChange mode config"
| "panel_step config (PeakHourChange index v) = handlePeakHourChange index v config"
| "panel_step config AddPeakHour = addPeakHour config"
| "panel_step config (RemovePeakHour index) = removePeakHour index config"

text \<open>The rows are rendered from \<^verbatim>\<open>peakHours.map\<close>, so an edit carries the index of an
  existing row. A run is \<open>None\<close> when it contains an edit of a row that does not exist.\<close>

fun rendered :: "ScheduledWarmupConfig \<Rightarrow> panel_event \<Rightarrow> bool" where
  "rendered config (PeakHourChange index v) = (index < length (peakHours config))"
| "rendered config _ = True"

fun panel_run :: "ScheduledWarmupConfig \<Rightarrow> panel_event list \<Rightarrow> ScheduledWarmupConfig option" where
  "panel_run config [] = Some config"
| "panel_run config (e # es) =
     (if rendered config e then panel_run (panel_step config e) es else None)"

section \<open>The auto-connect hook (\<^verbatim>\<open>useTokenPoolAutoConnect\<close>)\<close>

text \<open>
  JavaScript runs the hook on one thread: the code between two \<^verbatim>\<open>await\<close>s runs without
  interruption, and an \<^verbatim>\<open>await\<close> suspends the call of \<^verbatim>\<open>checkAndConnect\<close> until the remote
  operation settles. Each call of \<^verbatim>\<open>checkAndConnect\<close> that got past its first line is a task:
  waiting for \<^verbatim>\<open>tokenpool_status\<close> (with the configuration its closure captured), waiting for
  \<^verbatim>\<open>tokenpool_connect\<close> (with the URL sent), or finished. The two refs of the hook are
  \<open>isConnecting\<close> and \<open>retryInterval\<close>; an active interval is represented by the configuration
  its callback has captured. \<open>connect_calls\<close> logs every \<^verbatim>\<open>tokenpool_connect\<close> issued.
\<close>

datatype task = AwaitStatus "AppConfig option" | AwaitConnect string | Finished

datatype 'a settled = Fulfilled 'a | Rejected

record HookState =
  isConnecting :: bool
  retryInterval :: "AppConfig option option"
  last_deps :: "(bool \<times> string option) option"
  tasks :: "task list"
  connect_calls :: "string list"

definition initialHook :: HookState where
  "initialHook =
     \<lparr>isConnecting = False, retryInterval = None, last_deps = None, tasks = [], connect_calls = []\<rparr>"

text \<open>\<^verbatim>\<open>config?.token_pool?.auto_connect\<close> and \<^verbatim>\<open>config?.token_pool?.server_url\<close>, the
  dependencies of the effect; the first is used for its truthiness only.\<close>

definition cfg_auto_connect :: "AppConfig option \<Rightarrow> bool" where
  "cfg_auto_connect config =
     (case config of
        None \<Rightarrow> False
      | Some c \<Rightarrow> (case token_pool c of None \<Rightarrow> False | Some tp \<Rightarrow> auto_connect tp))"

definition cfg_server_url :: "AppConfig option \<Rightarrow> string option" where
  "cfg_server_url config =
     (case config of
        None \<Rightarrow> None
      | Some c \<Rightarrow> (case token_pool c of None \<Rightarrow> None | Some tp \<Rightarrow> server_url tp))"

text \<open>\<^verbatim>\<open>config.token_pool?.server_url || 'ws://127.0.0.1:8046/ws/supplier'\<close>: the empty string
  is falsy.\<close>

definition serverUrl :: "AppConfig option \<Rightarrow> string" where
  "serverUrl config =
     (case cfg_server_url config of
        None \<Rightarrow> ''ws://127.0.0.1:8046/ws/supplier''
      | Some u \<Rightarrow> if u = [] then ''ws://127.0.0.1:8046/ws/supplier'' else u)"

text \<open>\<^verbatim>\<open>checkAndConnect\<close> up to its first \<^verbatim>\<open>await\<close> (lines 22-27).\<close>

definition checkAndConnect_start :: "AppConfig option \<Rightarrow> HookState \<Rightarrow> HookState" where
  "checkAndConnect_start config st =
     (if isConnecting st then st else st\<lparr>tasks := tasks st @ [AwaitStatus config]\<rparr>)"

text \<open>\<^verbatim>\<open>status.status === 'Disconnected' || status.status.startsWith('Error')\<close>\<close>

definition needs_connect :: "string \<Rightarrow> bool" where
  "needs_connect status = (status = ''Disconnected'' \<or> prefix ''Error'' status)"

text \<open>The continuation after \<^verbatim>\<open>await invoke('tokenpool_status')\<close> (lines 27-37 and 46-48) of
  the task \<open>i\<close>.\<close>

definition status_settled :: "nat \<Rightarrow> string settled \<Rightarrow> HookState \<Rightarrow> HookState" where
  "status_settled i r st =
     (if i < length (tasks st) then
        (case tasks st ! i of
           AwaitStatus config \<Rightarrow>
             (case r of
                Rejected \<Rightarrow> st\<lparr>tasks := (tasks st)[i := Finished]\<rparr>
              | Fulfilled status \<Rightarrow>
                  if needs_connect status then
                    st\<lparr>isConnecting := True,
                       tasks := (tasks st)[i := AwaitConnect (serverUrl config)],
                       connect_calls := connect_calls st @ [serverUrl config]\<rparr>
                  else st\<lparr>tasks := (tasks st)[i := Finished]\<rparr>)
         | _ \<Rightarrow> st)
      else st)"

text \<open>The continuation after \<^verbatim>\<open>await invoke('tokenpool_connect', ...)\<close> (lines 38-44): both
  outcomes reach the \<^verbatim>\<open>finally\<close> block.\<close>

definition connect_settled :: "nat \<Rightarrow> unit settled \<Rightarrow> HookState \<Rightarrow> HookState" where
  "connect_settled i r st =
     (if i < length (tasks st) then
        (case tasks st ! i of
           AwaitConnect url \<Rightarrow> st\<lparr>isConnecting := False, tasks := (tasks st)[i := Finished]\<rparr>
         | _ \<Rightarrow> st)
      else st)"

text \<open>The effect (lines 12-63). It runs when the component is first rendered and whenever one
  of its two dependencies has changed; the cleanup of the previous run clears the interval.
  The first dependency is compared by its truthiness: a change between \<^verbatim>\<open>undefined\<close> and
  \<^verbatim>\<open>false\<close> would run the effect again, through the branch that only clears an interval
  already cleared.\<close>

definition effect :: "AppConfig option \<Rightarrow> HookState \<Rightarrow> HookState" where
  "effect config st =
     (if \<not> cfg_auto_connect config then st\<lparr>retryInterval := None\<rparr>
      else (checkAndConnect_start config st)\<lparr>retryInterval := Some config\<rparr>)"

definition cleanup :: "HookState \<Rightarrow> HookState" where
  "cleanup st = st\<lparr>retryInterval := None\<rparr>"

definition render :: "AppConfig option \<Rightarrow> HookState \<Rightarrow> HookState" where
  "render config st =
     (let deps = (cfg_auto_connect config, cfg_server_url config)
      in if last_deps st = Some deps then st
         else effect config ((cleanup st)\<lparr>last_deps := Some deps\<rparr>))"

text \<open>The timer fires the callback of the active interval, if there is one.\<close>

definition interval_fires :: "HookState \<Rightarrow> HookState" where
  "interval_fires st =
     (case retryInterval st of None \<Rightarrow> st | Some config \<Rightarrow> checkAndConnect_start config st)"

datatype hook_event =
    Render "AppConfig option"
  | IntervalFires
  | StatusSettled nat "string settled"
  | ConnectSettled nat "unit settled"
  | Unmount

fun hook_step :: "HookState \<Rightarrow> hook_event \<Rightarrow> HookState" where
  "hook_step st (Render config) = render config st"
| "hook_step st IntervalFires = interval_fires st"
| "hook_step st (StatusSettled i r) = status_settled i r st"
| "hook_step st (ConnectSettled i r) = connect_settled i r st"
| "hook_step st Unmount = cleanup st"

definition hook_run :: "HookState \<Rightarrow> hook_event list \<Rightarrow> HookState" where
  "hook_run st es = foldl hook_step st es"

text \<open>The connect calls in flight: the tasks waiting for \<^verbatim>\<open>tokenpool_connect\<close>.\<close>

fun is_connecting_task :: "task \<Rightarrow> bool" where
  "is_connecting_task (AwaitConnect url) = True"
| "is_connecting_task _ = False"

definition in_flight :: "HookState \<Rightarrow> nat" where
  "in_flight st = length (filter is_connecting_task (tasks st))"

section \<open>Events of the settings page\<close>

text \<open>The three controls of the warmup section: the enable switch, the time input of a row
  (\<^verbatim>\<open>updateTimePoint({ start })\<close>) and the switch of a row (\<^verbatim>\<open>updateTimePoint({ enabled })\<close>).
  An exception in a handler leaves the state as it was.\<close>

datatype page_event = EnableSwitch bool | TimeEdit nat string | RowSwitch nat bool

fun page_step :: "SettingsState \<Rightarrow> page_event \<Rightarrow> SettingsState" where
  "page_step st (EnableSwitch checked) =
     (case scheduled_warmup_onChange checked st of Inl e \<Rightarrow> st | Inr st' \<Rightarrow> st')"
| "page_step st (TimeEdit idx s) = updateTimePoint idx \<lparr>u_start = Some s, u_enabled = None\<rparr> st"
| "page_step st (RowSwitch idx b) = updateTimePoint idx \<lparr>u_start = None, u_enabled = Some b\<rparr> st"

definition page_run :: "SettingsState \<Rightarrow> page_event list \<Rightarrow> SettingsState" where
  "page_run st es = foldl page_step st es"

definition initialState :: SettingsState where
  "initialState = \<lparr>formData = initialFormData, toasts = []\<rparr>"

text \<open>A page whose form data holds the given schedule entries.\<close>

definition page_with :: "TimeRange slot list \<Rightarrow> SettingsState" where
  "page_with ts =
     \<lparr>formData =
        \<lparr>scheduled_warmup =
           Some \<lparr>enabled = True, schedules = Some [''default'' \<mapsto> ts], monitored_models = None,
                 peak_hours = None, warmup_mode = None\<rparr>,
         token_pool = None\<rparr>,
      toasts = []\<rparr>"

definition window :: "string \<Rightarrow> bool \<Rightarrow> TimeRange slot" where
  "window s en = Elem \<lparr>tr_start = s, tr_end = s, tr_enabled = Some en\<rparr>"

section \<open>Properties of schedules\<close>

text \<open>A time input reports the empty string or \<^verbatim>\<open>HH:MM\<close> with an hour below 24 and a minute
  below 60.\<close>

definition valid_time :: "string \<Rightarrow> bool" where
  "valid_time s =
     (case s of
        [a, b, c, d, e] \<Rightarrow>
          is_digit a \<and> is_digit b \<and> c = CHR '':'' \<and> is_digit d \<and> is_digit e \<and>
          10 * digit_val a + digit_val b < 24 \<and> 10 * digit_val d + digit_val e < 60
      | _ \<Rightarrow> False)"

definition input_value :: "string \<Rightarrow> bool" where
  "input_value s = (s = [] \<or> valid_time s)"

text \<open>An entry takes part in the interval check when it has a start and is not switched off
  (line 454).\<close>

definition active :: "TimeRange \<Rightarrow> bool" where
  "active w = (tr_start w \<noteq> [] \<and> tr_enabled w \<noteq> Some False)"

definition apart :: "TimeRange \<Rightarrow> TimeRange \<Rightarrow> bool" where
  "apart a b =
     js_ge (interval_diff (time_minutes (tr_start a)) (time_minutes (tr_start b))) (JNum 300)"

definition separated :: "TimeRange slot list \<Rightarrow> bool" where
  "separated ts =
     (\<forall>i \<in> {0..<length ts}. \<forall>j \<in> {0..<length ts}.
        i = j \<or>
        (case (js_index ts i, js_index ts j) of
           (Some a, Some b) \<Rightarrow> \<not> active a \<or> \<not> active b \<or> apart a b
         | _ \<Rightarrow> True))"

definition well_formed :: "TimeRange slot list \<Rightarrow> bool" where
  "well_formed ts = list_all (\<lambda>x. case x of Elem w \<Rightarrow> input_value (tr_start w) | _ \<Rightarrow> True) ts"

definition degenerate :: "TimeRange slot list \<Rightarrow> bool" where
  "degenerate ts = list_all (\<lambda>x. case x of Elem w \<Rightarrow> tr_end w = tr_start w | _ \<Rightarrow> True) ts"

text \<open>The events that are checked against the minimum interval or need no check: every
  event but switching a row on.\<close>

fun keeps_interval :: "page_event \<Rightarrow> bool" where
  "keeps_interval (EnableSwitch checked) = True"
| "keeps_interval (TimeEdit idx s) = input_value s"
| "keeps_interval (RowSwitch idx b) = (\<not> b)"

text \<open>The peak hours of the panel taken as windows that are all switched on.\<close>

definition peak_windows :: "ScheduledWarmupConfig \<Rightarrow> TimeRange slot list" where
  "peak_windows config =
     map (\<lambda>x. case x of Elem s \<Rightarrow> window s True | Hole \<Rightarrow> Hole | Undefined \<Rightarrow> Undefined)
       (peakHours config)"

definition panel_inv :: "ScheduledWarmupConfig \<Rightarrow> bool" where
  "panel_inv config =
     (1 \<le> length (peakHours config) \<and> length (peakHours config) \<le> 6 \<and>
      Hole \<notin> set (peakHours config) \<and>
      (case monitored_models config of None \<Rightarrow> False | Some ms \<Rightarrow> ms \<noteq> [] \<and> distinct ms))"

text \<open>\<^verbatim>\<open>formData.scheduled_warmup?.schedules?.['default']\<close>, and a schedule in which no entry
  has a start (and no position is \<^verbatim>\<open>undefined\<close>).\<close>

definition scheduleList :: "AppConfig \<Rightarrow> TimeRange slot list option" where
  "scheduleList fd =
     (case scheduled_warmup fd of
        None \<Rightarrow> None
      | Some sw \<Rightarrow> (case schedules sw of None \<Rightarrow> None | Some sch \<Rightarrow> sch ''default''))"

definition no_time_set :: "TimeRange slot list \<Rightarrow> bool" where
  "no_time_set ts =
     list_all (\<lambda>x. case x of Elem w \<Rightarrow> tr_start w = [] | Hole \<Rightarrow> True | Undefined \<Rightarrow> False) ts"

text \<open>A panel configuration with the given monitored models and peak hours.\<close>

definition panel_config :: "string list \<Rightarrow> string slot list \<Rightarrow> ScheduledWarmupConfig" where
  "panel_config ms hs =
     \<lparr>enabled = True, schedules = None, monitored_models = Some ms, peak_hours = Some hs,
      warmup_mode = Some peak_based\<rparr>"

text \<open>A configuration with auto-connect switched on for the given URL, and the hook at rest
  with the interval of that configuration running.\<close>

definition pool_config :: "string \<Rightarrow> AppConfig option" where
  "pool_config url =
     Some \<lparr>scheduled_warmup = None,
           token_pool = Some \<lparr>auto_connect = True, server_url = Some url\<rparr>\<rparr>"

definition watching :: "string \<Rightarrow> HookState" where
  "watching url =
     \<lparr>isConnecting = False, retryInterval = Some (pool_config url),
      last_deps = Some (True, Some url), tasks = [], connect_calls = []\<rparr>"

section \<open>Parsing and printing clock strings\<close>

lemma of_char_digit_char: "d < 10 \<Longrightarrow> (of_char (digit_char d) :: nat) = 48 + d"
  by (simp add: digit_char_def)

lemma digit_val_digit_char: "d < 10 \<Longrightarrow> digit_val (digit_char d) = d"
  by (simp add: digit_val_def of_char_digit_char)

lemma is_digit_digit_char: "d < 10 \<Longrightarrow> is_digit (digit_char d)"
  by (simp add: is_digit_def of_char_digit_char)

lemma colon_code: "(of_char CHR '':'' :: nat) = 58"
  by code_simp

lemma digit_char_not_colon: "d < 10 \<Longrightarrow> digit_char d \<noteq> CHR '':''"
proof
  assume d: "d < 10" and eq: "digit_char d = CHR '':''"
  from eq have "(of_char (digit_char d) :: nat) = of_char CHR '':''" by simp
  with d show False by (simp add: of_char_digit_char colon_code)
qed

lemma digit_char_0: "digit_char 0 = CHR ''0''"
  by code_simp

lemma pad2_dec_string:
  assumes "n < 100"
  shows "padStart 2 CHR ''0'' (dec_string n) = [digit_char (n div 10), digit_char (n mod 10)]"
proof (cases "n < 10")
  case True
  then show ?thesis
    by (simp add: padStart_def dec_string.simps [of n] digit_char_0)
next
  case False
  with assms have "n div 10 < 10" by simp
  with False show ?thesis
    by (simp add: padStart_def dec_string.simps [of n] dec_string.simps [of "n div 10"])
qed

lemma js_Number_two_digits:
  assumes "a < 10" "b < 10"
  shows "js_Number [digit_char a, digit_char b] = JNum (int (10 * a + b))"
  using assms by (simp add: js_Number_def is_digit_digit_char digit_val_digit_char)

lemma js_split_two_fields:
  assumes "a < 10" "b < 10" "c < 10" "d < 10"
  shows "js_split CHR '':'' ([digit_char a, digit_char b] @ '':'' @ [digit_char c, digit_char d])
         = [[digit_char a, digit_char b], [digit_char c, digit_char d]]"
  using assms by (simp add: digit_char_not_colon)

lemma split_hm_hhmm:
  assumes "h < 100" "m < 100"
  shows "split_hm (hhmm h m) = (Some (JNum (int h)), Some (JNum (int m)))"
proof -
  have d: "h div 10 < 10" "h mod 10 < 10" "m div 10 < 10" "m mod 10 < 10"
    using assms by simp_all
  have "js_split CHR '':'' (hhmm h m)
        = [[digit_char (h div 10), digit_char (h mod 10)], [digit_char (m div 10), digit_char (m mod 10)]]"
    unfolding hhmm_def pad2_dec_string [OF assms(1)] pad2_dec_string [OF assms(2)]
    by (rule js_split_two_fields [OF d])
  then show ?thesis
    by (simp add: split_hm_def js_Number_two_digits d)
qed

lemma time_minutes_hhmm:
  assumes "h < 100" "m < 100"
  shows "time_minutes (hhmm h m) = JNum (int (60 * h + m))"
  by (simp add: time_minutes_def split_hm_hhmm [OF assms])

lemma hhmm_not_empty: "hhmm h m \<noteq> []"
  by (simp add: hhmm_def)

lemma time_minutes_clock:
  assumes "t < 1440"
  shows "time_minutes (clock t) = JNum (int t)"
proof -
  have "t div 60 < 100" "t mod 60 < 100" using assms by simp_all
  then show ?thesis by (simp add: clock_def time_minutes_hhmm)
qed


lemma format_minutes:
  "padStart 2 CHR ''0'' (js_toString (js_floor_div (JNum (int w)) 60)) @ '':'' @
   padStart 2 CHR ''0'' (js_toString (js_rem (JNum (int w)) 60)) = clock w"
proof -
  have d: "int w div 60 = int (w div 60)" and m: "int w mod 60 = int (w mod 60)"
    by (simp_all add: zdiv_int zmod_int)
  show ?thesis
    by (simp add: d m clock_def hhmm_def)
qed

lemma calc_of_minutes:
  assumes "time_minutes s = JNum (int t)"
  shows "calculateWarmupTime s = clock (if 300 \<le> t then t - 300 else 1140 + t)"
proof (cases "300 \<le> t")
  case True
  then have e: "int t - 300 = int (t - 300)" by simp
  have "calculateWarmupTime s =
     padStart 2 CHR ''0'' (js_toString (js_floor_div (JNum (int (t - 300))) 60)) @ '':'' @
     padStart 2 CHR ''0'' (js_toString (js_rem (JNum (int (t - 300))) 60))"
    using True by (simp add: calculateWarmupTime_def Let_def assms e del: js_toString.simps js_floor_div.simps js_rem.simps of_nat_diff)
  then show ?thesis using True by (simp only: format_minutes if_True)
next
  case False
  then have e: "1440 + int t - 300 = int (1140 + t)" by simp
  have "calculateWarmupTime s =
     padStart 2 CHR ''0'' (js_toString (js_floor_div (JNum (int (1140 + t))) 60)) @ '':'' @
     padStart 2 CHR ''0'' (js_toString (js_rem (JNum (int (1140 + t))) 60))"
    using False by (simp add: calculateWarmupTime_def Let_def assms e del: js_toString.simps js_floor_div.simps js_rem.simps of_nat_add)
  then show ?thesis using False by (simp only: format_minutes if_False)
qed

lemma trigger_minutes:
  assumes "t < 1440"
  shows "nat ((int t - 300) mod 1440) = (if 300 \<le> t then t - 300 else 1140 + t)"
proof (cases "300 \<le> t")
  case True
  then have "(int t - 300) mod 1440 = int t - 300" using assms by simp
  then show ?thesis using True by simp
next
  case False
  have "(int t - 300) mod 1440 = (int t - 300 + 1440) mod 1440"
    by (rule mod_add_self2 [symmetric])
  also have "\<dots> = int t + 1140" using False by simp
  finally show ?thesis using False by simp
qed

lemma getWarmupTime_hhmm:
  assumes "h < 24" "m < 60"
  shows "getWarmupTime (hhmm h m) = Inr (hhmm (if 5 \<le> h then h - 5 else h + 19) m)"
proof -
  have s: "split_hm (hhmm h m) = (Some (JNum (int h)), Some (JNum (int m)))"
    using assms by (simp add: split_hm_hhmm)
  have t: "js_toString (JNum (int k)) = dec_string k" for k by simp
  show ?thesis
  proof (cases "5 \<le> h")
    case True
    then have e: "int h - 5 = int (h - 5)" by simp
    have "getWarmupTime (hhmm h m) =
       Inr (padStart 2 CHR ''0'' (js_toString (JNum (int (h - 5)))) @ '':'' @
            padStart 2 CHR ''0'' (js_toString (JNum (int m))))"
      using True by (simp add: getWarmupTime_def Let_def s hhmm_not_empty e del: js_toString.simps of_nat_diff)
    then show ?thesis using True by (simp only: t hhmm_def if_True)
  next
    case False
    then have e: "int h - 5 + 24 = int (h + 19)" by simp
    have "getWarmupTime (hhmm h m) =
       Inr (padStart 2 CHR ''0'' (js_toString (JNum (int (h + 19)))) @ '':'' @
            padStart 2 CHR ''0'' (js_toString (JNum (int m))))"
      using False by (simp add: getWarmupTime_def Let_def s hhmm_not_empty e del: js_toString.simps of_nat_add)
    then show ?thesis using False by (simp only: t hhmm_def if_False)
  qed
qed

lemma div_mod_60:
  fixes k m :: nat
  assumes "m < 60"
  shows "(60 * k + m) div 60 = k" and "(60 * k + m) mod 60 = m"
  using assms by simp_all

lemma clock_trigger_hm:
  assumes "h < 24" "m < 60"
  shows "clock (if 300 \<le> 60 * h + m then 60 * h + m - 300 else 1140 + (60 * h + m))
         = hhmm (if 5 \<le> h then h - 5 else h + 19) m"
proof (cases "5 \<le> h")
  case True
  then have c: "300 \<le> 60 * h + m" by simp
  have e: "60 * h + m - 300 = 60 * (h - 5) + m" using True by simp
  show ?thesis
    using True c by (simp only: if_True e clock_def div_mod_60 [OF assms(2)])
next
  case False
  then have c: "\<not> 300 \<le> 60 * h + m" using assms by simp
  have e: "1140 + (60 * h + m) = 60 * (h + 19) + m" by simp
  show ?thesis
    using False c by (simp only: if_False e clock_def div_mod_60 [OF assms(2)])
qed

text \<open>Every \<^verbatim>\<open>HH:MM\<close> value of a time input is the clock string of a minute of the day.\<close>

lemma digit_char_digit_val: "is_digit c \<Longrightarrow> digit_char (digit_val c) = c"
  by (simp add: is_digit_def digit_char_def digit_val_def)

lemma is_digit_val_less: "is_digit c \<Longrightarrow> digit_val c < 10"
  by (auto simp add: is_digit_def digit_val_def)

lemma valid_time_is_clock:
  assumes "valid_time s"
  shows "\<exists>t<1440. s = clock t"
proof -
  from assms obtain a b d e where s: "s = [a, b, CHR '':'', d, e]"
    and dg: "is_digit a" "is_digit b" "is_digit d" "is_digit e"
    and h: "10 * digit_val a + digit_val b < 24" and m: "10 * digit_val d + digit_val e < 60"
    by (auto simp add: valid_time_def split: list.splits)
  let ?h = "10 * digit_val a + digit_val b" and ?m = "10 * digit_val d + digit_val e"
  have lt: "digit_val b < 10" "digit_val e < 10" using dg by (simp_all add: is_digit_val_less)
  have dh: "?h div 10 = digit_val a" "?h mod 10 = digit_val b"
    and dm: "?m div 10 = digit_val d" "?m mod 10 = digit_val e"
    using lt by simp_all
  have "hhmm ?h ?m = s"
    using h m dg
    by (simp only: hhmm_def pad2_dec_string [of ?h] pad2_dec_string [of ?m] dh dm
        digit_char_digit_val s append.simps less_trans [OF h] less_trans [OF m])
  moreover have "clock (60 * ?h + ?m) = hhmm ?h ?m"
    using m by (simp only: clock_def div_mod_60 [OF m])
  moreover have "60 * ?h + ?m < 1440" using h m by simp
  ultimately show ?thesis by metis
qed

text \<open>
  Claim C7. For every peak time of day \<open>t\<close> from 0 to 1439 minutes, written as the clock string
  \<open>clock t\<close> (which the code parses back to \<open>t\<close>), \<^verbatim>\<open>calculateWarmupTime\<close> and
  \<^verbatim>\<open>getWarmupTime\<close> both return the clock string of \<open>(t - 300) mod 1440\<close>; so the two helpers
  agree on every valid \<^verbatim>\<open>HH:MM\<close> input (each is such a clock string, by
  \<open>valid_time_is_clock\<close>). The witness instantiates the theorem at 10:00, whose
  trigger is 05:00, and at 02:00, whose trigger is 21:00.
\<close>

theorem warmup_time_is_peak_minus_300:
  assumes "t < 1440"
  shows "time_minutes (clock t) = JNum (int t)
       \<and> calculateWarmupTime (clock t) = clock (nat ((int t - 300) mod 1440))
       \<and> getWarmupTime (clock t) = Inr (clock (nat ((int t - 300) mod 1440)))
       \<and> nat ((int t - 300) mod 1440) < 1440"
proof -
  have hm: "t div 60 < 24" "t mod 60 < 60" using assms by simp_all
  have t: "60 * (t div 60) + t mod 60 = t" by simp
  have a: "calculateWarmupTime (clock t) = clock (nat ((int t - 300) mod 1440))"
    using calc_of_minutes [OF time_minutes_clock [OF assms]] trigger_minutes [OF assms] by simp
  have "getWarmupTime (clock t) = Inr (hhmm (if 5 \<le> t div 60 then t div 60 - 5 else t div 60 + 19) (t mod 60))"
    unfolding clock_def by (rule getWarmupTime_hhmm [OF hm])
  also have "hhmm (if 5 \<le> t div 60 then t div 60 - 5 else t div 60 + 19) (t mod 60)
      = clock (nat ((int t - 300) mod 1440))"
    using clock_trigger_hm [OF hm] trigger_minutes [OF assms] unfolding t by simp
  finally have b: "getWarmupTime (clock t) = Inr (clock (nat ((int t - 300) mod 1440)))" .
  have c: "nat ((int t - 300) mod 1440) < 1440" by simp
  from a b c time_minutes_clock [OF assms] show ?thesis by simp
qed

theorem warmup_time_witness:
  "(600::nat) < 1440 \<and> (120::nat) < 1440
   \<and> calculateWarmupTime ''10:00'' = ''05:00'' \<and> getWarmupTime ''10:00'' = Inr ''05:00''
   \<and> calculateWarmupTime ''02:00'' = ''21:00'' \<and> getWarmupTime ''02:00'' = Inr ''21:00''"
proof -
  have c: "clock 600 = ''10:00''" "clock 120 = ''02:00''" "clock 300 = ''05:00''" "clock 1260 = ''21:00''"
    by code_simp+
  have n: "nat ((int 600 - 300) mod 1440) = 300" "nat ((int 120 - 300) mod 1440) = 1260"
    by simp_all
  show ?thesis
    using warmup_time_is_peak_minus_300 [of 600] warmup_time_is_peak_minus_300 [of 120]
    unfolding n c by simp
qed

section \<open>The interval check of the settings page\<close>

lemma interval_diff_sym: "interval_diff x y = interval_diff y x"
  by (cases x; cases y) (simp_all add: interval_diff_def abs_minus_commute)

text \<open>
  Claim C8. For times of day \<open>a\<close> and \<open>b\<close> from 0 to 1439, the distance computed at lines
  460-461 (\<open>d = |a - b|\<close>, replaced by \<open>1440 - d\<close> when \<open>d > 720\<close>) is the minimum of \<open>|a - b|\<close>
  and \<open>1440 - |a - b|\<close>, and it is symmetric. The witness is the pair 23:50 and 00:10, whose
  distance is 20 minutes in both orders.
\<close>

theorem circular_distance:
  assumes "0 \<le> a" "a < 1440" "0 \<le> b" "b < 1440"
  shows "interval_diff (JNum a) (JNum b) = JNum (min \<bar>a - b\<bar> (1440 - \<bar>a - b\<bar>))
       \<and> interval_diff (JNum a) (JNum b) = interval_diff (JNum b) (JNum a)"
proof -
  have "interval_diff (JNum a) (JNum b) = JNum (min \<bar>a - b\<bar> (1440 - \<bar>a - b\<bar>))"
    using assms by (simp add: interval_diff_def Let_def min_def)
  moreover have "interval_diff (JNum a) (JNum b) = interval_diff (JNum b) (JNum a)"
    by (simp add: interval_diff_def abs_minus_commute)
  ultimately show ?thesis by simp
qed

text \<open>
  Witness for C8.
\<close>

theorem circular_distance_witness:
  "(0::int) \<le> 1430 \<and> (1430::int) < 1440 \<and> (0::int) \<le> 10 \<and> (10::int) < 1440
   \<and> interval_diff (time_minutes ''23:50'') (time_minutes ''00:10'') = JNum 20
   \<and> interval_diff (time_minutes ''00:10'') (time_minutes ''23:50'') = JNum 20"
proof -
  have t: "time_minutes ''23:50'' = JNum 1430" "time_minutes ''00:10'' = JNum 10"
    by code_simp+
  have th: "interval_diff (JNum 1430) (JNum 10) = JNum (min \<bar>1430 - 10\<bar> (1440 - \<bar>1430 - 10\<bar>))
       \<and> interval_diff (JNum 1430) (JNum 10) = interval_diff (JNum 10) (JNum 1430)"
    by (rule circular_distance) simp_all
  have d: "interval_diff (JNum 1430) (JNum 10) = JNum 20"
    using conjunct1 [OF th] by simp
  have e: "interval_diff (JNum 1430) (JNum 10) = interval_diff (JNum 10) (JNum 1430)"
    using th by (rule conjunct2)
  from d e have "interval_diff (JNum 10) (JNum 1430) = JNum 20" by simp
  with d show ?thesis unfolding t by simp
qed

text \<open>
  Claim C4. When the interval validation of \<^verbatim>\<open>updateTimePoint\<close> rejects an update, the form
  data after the call is the form data before it; the only effect is the error toast.
\<close>

theorem rejected_update_keeps_state:
  assumes "validation_rejects idx upd st"
  shows "formData (updateTimePoint idx upd st) = formData st
       \<and> toasts (updateTimePoint idx upd st) = toasts st @ [interval_error]"
  using assms by (simp add: updateTimePoint_def)

text \<open>
  Witness for C4: on the initial page, moving row 0 to 14:00 is rejected (15:00 is 60 minutes
  away) and the form data stays.
\<close>

theorem rejected_update_witness:
  "validation_rejects 0 \<lparr>u_start = Some ''14:00'', u_enabled = None\<rparr> initialState
   \<and> formData (updateTimePoint 0 \<lparr>u_start = Some ''14:00'', u_enabled = None\<rparr> initialState)
       = formData initialState
   \<and> toasts (updateTimePoint 0 \<lparr>u_start = Some ''14:00'', u_enabled = None\<rparr> initialState)
       = [interval_error]"
proof -
  have r: "validation_rejects 0 \<lparr>u_start = Some ''14:00'', u_enabled = None\<rparr> initialState"
    by code_simp
  have t: "toasts initialState = []" by (simp add: initialState_def)
  show ?thesis
    using r rejected_update_keeps_state [OF r] by (simp add: t)
qed

lemma js_index_spread: "js_index (map spread_slot xs) i = js_index xs i"
proof (cases "i < length xs")
  case True
  then show ?thesis by (cases "xs ! i") (simp_all add: js_index_def)
next
  case False
  then show ?thesis by (simp add: js_index_def)
qed

lemma js_index_assign_same: "js_index (js_assign xs i v) i = Some v"
  by (simp add: js_index_def js_assign_def nth_append)

lemma js_index_assign_other:
  assumes "j \<noteq> i"
  shows "js_index (js_assign xs i v) j = js_index xs j"
proof (cases "i < length xs")
  case True
  then show ?thesis using assms by (simp add: js_index_def js_assign_def)
next
  case False
  then show ?thesis using assms
    by (auto simp add: js_index_def js_assign_def nth_append)
qed

lemma length_js_assign: "length (js_assign xs i v) = max (length xs) (Suc i)"
  by (simp add: js_assign_def)

lemma currentTimes_accepted:
  assumes "\<not> validation_rejects idx upd st"
  shows "currentTimes (formData (updateTimePoint idx upd st)) =
         js_assign (map spread_slot (currentTimes (formData st))) idx
           (merged_entry upd (js_index (currentTimes (formData st)) idx))"
  using assms by (simp add: updateTimePoint_def currentTimes_def Let_def js_index_spread)

lemma toasts_accepted:
  assumes "\<not> validation_rejects idx upd st"
  shows "toasts (updateTimePoint idx upd st) = toasts st"
  using assms by (simp add: updateTimePoint_def Let_def)

lemma switch_never_rejected: "\<not> validation_rejects idx \<lparr>u_start = None, u_enabled = Some b\<rparr> st"
  by (simp add: validation_rejects_def)

text \<open>
  Claim C3, as amended. Switching a row on or off (\<^verbatim>\<open>updateTimePoint({ enabled })\<close>) runs no
  interval check in either direction: no error is shown, the row gets the requested flag and
  keeps its start and end (empty ones if the row had no entry), and every other row reads as
  before.
\<close>

theorem row_switch_not_validated:
  "toasts (page_step st (RowSwitch idx b)) = toasts st
   \<and> js_index (currentTimes (formData (page_step st (RowSwitch idx b)))) idx =
       Some \<lparr>tr_start = (case js_index (currentTimes (formData st)) idx of
                           Some e \<Rightarrow> tr_start e | None \<Rightarrow> []),
             tr_end = (case js_index (currentTimes (formData st)) idx of
                         Some e \<Rightarrow> tr_end e | None \<Rightarrow> []),
             tr_enabled = Some b\<rparr>
   \<and> (\<forall>j. j \<noteq> idx \<longrightarrow>
         js_index (currentTimes (formData (page_step st (RowSwitch idx b)))) j =
         js_index (currentTimes (formData st)) j)"
  by (simp add: toasts_accepted [OF switch_never_rejected]
      currentTimes_accepted [OF switch_never_rejected] js_index_assign_same
      js_index_assign_other js_index_spread merged_entry_def)

text \<open>
  Claim C3 as stated fails: with 14:00 switched on in row 0 and 15:00 switched off in row 1,
  the circular distance is 60 minutes, below 300, and switching row 1 on is accepted without
  a toast.
\<close>

theorem row_switch_counterexample:
  "js_index (currentTimes (formData (page_with [window ''14:00'' True, window ''15:00'' False, window ''21:00'' True]))) 0
     = Some \<lparr>tr_start = ''14:00'', tr_end = ''14:00'', tr_enabled = Some True\<rparr>
   \<and> js_lt (interval_diff (time_minutes ''15:00'') (time_minutes ''14:00'')) (JNum 300)
   \<and> toasts (page_step (page_with [window ''14:00'' True, window ''15:00'' False, window ''21:00'' True]) (RowSwitch 1 True)) = []
   \<and> currentTimes (formData (page_step (page_with [window ''14:00'' True, window ''15:00'' False, window ''21:00'' True]) (RowSwitch 1 True)))
     = [window ''14:00'' True, window ''15:00'' True, window ''21:00'' True]"
  by code_simp

text \<open>
  Witness for the amended C3.
\<close>

theorem row_switch_witness:
  "(0::nat) \<noteq> 1
   \<and> toasts (page_step (page_with [window ''10:00'' True, window ''15:00'' False]) (RowSwitch 1 True)) = []
   \<and> js_index (currentTimes (formData (page_step (page_with [window ''10:00'' True, window ''15:00'' False]) (RowSwitch 1 True)))) 1
       = Some \<lparr>tr_start = ''15:00'', tr_end = ''15:00'', tr_enabled = Some True\<rparr>
   \<and> js_index (currentTimes (formData (page_step (page_with [window ''10:00'' True, window ''15:00'' False]) (RowSwitch 1 True)))) 0
       = Some \<lparr>tr_start = ''10:00'', tr_end = ''10:00'', tr_enabled = Some True\<rparr>"
proof -
  let ?st = "page_with [window ''10:00'' True, window ''15:00'' False]"
  note th = row_switch_not_validated [of ?st 1 True]
  have n: "(0::nat) \<noteq> 1" by simp
  have e0: "js_index (currentTimes (formData ?st)) 0
            = Some \<lparr>tr_start = ''10:00'', tr_end = ''10:00'', tr_enabled = Some True\<rparr>"
    by code_simp
  have e1: "js_index (currentTimes (formData ?st)) 1
            = Some \<lparr>tr_start = ''15:00'', tr_end = ''15:00'', tr_enabled = Some False\<rparr>"
    by code_simp
  have t: "toasts ?st = []" by code_simp
  have a: "toasts (page_step ?st (RowSwitch 1 True)) = []"
    using th t by simp
  have b: "js_index (currentTimes (formData (page_step ?st (RowSwitch 1 True)))) 1
           = Some \<lparr>tr_start = ''15:00'', tr_end = ''15:00'', tr_enabled = Some True\<rparr>"
    using th unfolding e1 by simp
  have "js_index (currentTimes (formData (page_step ?st (RowSwitch 1 True)))) 0
        = js_index (currentTimes (formData ?st)) 0"
    using th n by blast
  then have c: "js_index (currentTimes (formData (page_step ?st (RowSwitch 1 True)))) 0
        = Some \<lparr>tr_start = ''10:00'', tr_end = ''10:00'', tr_enabled = Some True\<rparr>"
    unfolding e0 .
  from n a b c show ?thesis by blast
qed

section \<open>Invariants of the schedule entries\<close>

subsection \<open>Array reads\<close>

lemma js_index_Some_mem:
  assumes "js_index xs i = Some e"
  shows "Elem e \<in> set xs"
proof -
  from assms have i: "i < length xs" and v: "slot_value (xs ! i) = Some e"
    by (simp_all add: js_index_def split: if_splits)
  from v have "xs ! i = Elem e" by (cases "xs ! i") simp_all
  with i show ?thesis by (metis nth_mem)
qed

lemma js_index_Some_length: "js_index xs i = Some e \<Longrightarrow> i < length xs"
  by (simp add: js_index_def split: if_splits)

subsection \<open>Valid times parse to numbers\<close>

lemma is_digit_not_colon: "is_digit c \<Longrightarrow> c \<noteq> CHR '':''"
  by (auto simp add: is_digit_def colon_code)

lemma valid_time_minutes:
  assumes "valid_time s"
  shows "\<exists>t. time_minutes s = JNum t"
proof -
  from assms obtain a b d e where s: "s = [a, b, CHR '':'', d, e]"
    and dg: "is_digit a" "is_digit b" "is_digit d" "is_digit e"
    by (auto simp add: valid_time_def split: list.splits)
  have sp: "js_split CHR '':'' s = [[a, b], [d, e]]"
    using dg by (simp add: s is_digit_not_colon)
  show ?thesis
    using dg by (simp add: time_minutes_def split_hm_def sp js_Number_def)
qed

lemma valid_time_not_empty: "valid_time s \<Longrightarrow> s \<noteq> []"
  by (auto simp add: valid_time_def)

lemma not_lt_ge:
  assumes "time_minutes s = JNum a" "time_minutes s' = JNum b"
  shows "js_ge (interval_diff (time_minutes s) (time_minutes s')) (JNum 300)
         = (\<not> js_lt (interval_diff (time_minutes s) (time_minutes s')) (JNum 300))"
  unfolding assms by (auto simp add: interval_diff_def Let_def)

subsection \<open>The loop finds a conflict exactly when some other row is too close\<close>

lemma interval_conflict_iff:
  "interval_conflict idx nm ts i =
     (\<exists>k. i \<le> k \<and> k < length ts \<and> k \<noteq> idx \<and> too_close nm (js_index ts k))"
proof (induction idx nm ts i rule: interval_conflict.induct)
  case (1 idx nm ts i)
  show ?case
  proof (cases "i < length ts")
    case False
    then show ?thesis by (subst interval_conflict.simps) simp
  next
    case True
    note lt = this
    show ?thesis
    proof (cases "i = idx")
      case True
      have "interval_conflict idx nm ts i = interval_conflict idx nm ts (i + 1)"
        using lt True by (subst interval_conflict.simps) simp
      also have "\<dots> = (\<exists>k. i + 1 \<le> k \<and> k < length ts \<and> k \<noteq> idx \<and> too_close nm (js_index ts k))"
        using "1.IH"(1) [OF lt True] .
      also have "\<dots> = (\<exists>k. i \<le> k \<and> k < length ts \<and> k \<noteq> idx \<and> too_close nm (js_index ts k))"
        using True by (metis Suc_eq_plus1 Suc_leD Suc_leI le_neq_implies_less)
      finally show ?thesis .
    next
      case False
      note ne = this
      show ?thesis
      proof (cases "too_close nm (js_index ts i)")
        case True
        then have "interval_conflict idx nm ts i"
          using lt ne by (subst interval_conflict.simps) simp
        moreover have "\<exists>k. i \<le> k \<and> k < length ts \<and> k \<noteq> idx \<and> too_close nm (js_index ts k)"
          using True lt ne by blast
        ultimately show ?thesis by simp
      next
        case False
        have "interval_conflict idx nm ts i = interval_conflict idx nm ts (i + 1)"
          using lt ne False by (subst interval_conflict.simps) simp
        also have "\<dots> = (\<exists>k. i + 1 \<le> k \<and> k < length ts \<and> k \<noteq> idx \<and> too_close nm (js_index ts k))"
          using "1.IH"(2) [OF lt ne False] .
        also have "\<dots> = (\<exists>k. i \<le> k \<and> k < length ts \<and> k \<noteq> idx \<and> too_close nm (js_index ts k))"
          using False by (metis Suc_eq_plus1 Suc_leD Suc_leI le_neq_implies_less)
        finally show ?thesis .
      qed
    qed
  qed
qed

lemma accepted_time_no_conflict:
  assumes "\<not> validation_rejects idx \<lparr>u_start = Some s, u_enabled = en\<rparr> st"
      and "k \<noteq> idx"
  shows "\<not> too_close (time_minutes s) (js_index (currentTimes (formData st)) k)"
proof (cases "k < length (currentTimes (formData st))")
  case True
  from assms(1) have "\<not> interval_conflict idx (time_minutes s) (map spread_slot (currentTimes (formData st))) 0"
    by (simp add: validation_rejects_def)
  then have "\<not> too_close (time_minutes s) (js_index (map spread_slot (currentTimes (formData st))) k)"
    using True assms(2) by (auto simp add: interval_conflict_iff)
  then show ?thesis by (simp add: js_index_spread)
next
  case False
  then show ?thesis by (simp add: js_index_def too_close_def)
qed

subsection \<open>Separation, well-formedness and equal ends under an assignment\<close>

lemma separated_spread: "separated (map spread_slot xs) = separated xs"
  by (simp add: separated_def js_index_spread)

lemma well_formed_spread: "well_formed (map spread_slot xs) = well_formed xs"
proof (induction xs)
  case Nil
  then show ?case by (simp add: well_formed_def)
next
  case (Cons x xs)
  then show ?case by (cases x) (simp_all add: well_formed_def)
qed

lemma degenerate_spread: "degenerate (map spread_slot xs) = degenerate xs"
proof (induction xs)
  case Nil
  then show ?case by (simp add: degenerate_def)
next
  case (Cons x xs)
  then show ?case by (cases x) (simp_all add: degenerate_def)
qed

lemma well_formed_assign:
  assumes "well_formed xs" "input_value (tr_start v)"
  shows "well_formed (js_assign xs i v)"
  using assms
  by (auto simp add: well_formed_def js_assign_def list_all_iff dest: set_update_subset_insert [THEN subsetD])

lemma degenerate_assign:
  assumes "degenerate xs" "tr_end v = tr_start v"
  shows "degenerate (js_assign xs i v)"
  using assms
  by (auto simp add: degenerate_def js_assign_def list_all_iff dest: set_update_subset_insert [THEN subsetD])

lemma well_formed_index:
  assumes "well_formed xs" "js_index xs i = Some e"
  shows "input_value (tr_start e)"
  using assms(1) js_index_Some_mem [OF assms(2)]
  by (auto simp add: well_formed_def list_all_iff)

lemma degenerate_index:
  assumes "degenerate xs" "js_index xs i = Some e"
  shows "tr_end e = tr_start e"
  using assms(1) js_index_Some_mem [OF assms(2)]
  by (auto simp add: degenerate_def list_all_iff)

lemma separated_assign:
  assumes sep: "separated xs"
      and new: "\<And>k b. k \<noteq> idx \<Longrightarrow> js_index xs k = Some b \<Longrightarrow> active v \<Longrightarrow> active b
                  \<Longrightarrow> apart v b \<and> apart b v"
  shows "separated (js_assign xs idx v)"
  unfolding separated_def
proof (intro ballI)
  fix i j
  assume "i \<in> {0..<length (js_assign xs idx v)}" "j \<in> {0..<length (js_assign xs idx v)}"
  show "i = j \<or> (case (js_index (js_assign xs idx v) i, js_index (js_assign xs idx v) j) of
           (Some a, Some b) \<Rightarrow> \<not> active a \<or> \<not> active b \<or> apart a b
         | _ \<Rightarrow> True)"
  proof (cases "i = j")
    case True
    then show ?thesis by simp
  next
    case False
    note ij = this
    show ?thesis
    proof (cases "i = idx")
      case True
      then have j: "j \<noteq> idx" using ij by simp
      show ?thesis
        using new [OF j] True j
        by (auto simp add: js_index_assign_same js_index_assign_other split: option.splits)
    next
      case False
      note i = this
      show ?thesis
      proof (cases "j = idx")
        case True
        show ?thesis
          using new [OF i] True i
          by (auto simp add: js_index_assign_same js_index_assign_other split: option.splits)
      next
        case False
        have "case (js_index xs i, js_index xs j) of
                (Some a, Some b) \<Rightarrow> \<not> active a \<or> \<not> active b \<or> apart a b
              | _ \<Rightarrow> True"
        proof (cases "i < length xs \<and> j < length xs")
          case True
          then have "i \<in> {0..<length xs}" "j \<in> {0..<length xs}" by simp_all
          with sep ij show ?thesis unfolding separated_def by blast
        next
          case False
          then have "js_index xs i = None \<or> js_index xs j = None"
            by (auto simp add: js_index_def)
          then show ?thesis by (auto split: option.splits)
        qed
        then show ?thesis
          using i False by (simp add: js_index_assign_other)
      qed
    qed
  qed
qed

subsection \<open>One event of the page\<close>

lemma merged_entry_time:
  "tr_start (merged_entry \<lparr>u_start = Some s, u_enabled = en\<rparr> old) = s"
  "tr_end (merged_entry \<lparr>u_start = Some s, u_enabled = en\<rparr> old) = s"
  by (simp_all add: merged_entry_def)

lemma merged_entry_switch:
  "tr_start (merged_entry \<lparr>u_start = None, u_enabled = en\<rparr> old) =
     (case old of Some e \<Rightarrow> tr_start e | None \<Rightarrow> [])"
  "tr_end (merged_entry \<lparr>u_start = None, u_enabled = en\<rparr> old) =
     (case old of Some e \<Rightarrow> tr_end e | None \<Rightarrow> [])"
  "tr_enabled (merged_entry \<lparr>u_start = None, u_enabled = Some b\<rparr> old) = Some b"
  by (simp_all add: merged_entry_def)

lemma rejected_times:
  assumes "validation_rejects idx upd st"
  shows "currentTimes (formData (updateTimePoint idx upd st)) = currentTimes (formData st)"
  using assms by (simp add: updateTimePoint_def)

lemma merged_entry_degenerate:
  assumes "degenerate xs"
  shows "tr_end (merged_entry upd (js_index xs idx)) = tr_start (merged_entry upd (js_index xs idx))"
proof (cases "u_start upd")
  case (Some s)
  then show ?thesis by (simp add: merged_entry_def)
next
  case None
  show ?thesis
  proof (cases "js_index xs idx")
    case None
    then show ?thesis by (simp add: merged_entry_def \<open>u_start upd = None\<close>)
  next
    case (Some e)
    from degenerate_index [OF assms Some] show ?thesis
      by (simp add: merged_entry_def \<open>u_start upd = None\<close> Some)
  qed
qed

lemma updateTimePoint_degenerate:
  assumes "degenerate (currentTimes (formData st))"
  shows "degenerate (currentTimes (formData (updateTimePoint idx upd st)))"
proof (cases "validation_rejects idx upd st")
  case True
  then show ?thesis using assms by (simp add: rejected_times)
next
  case False
  show ?thesis
    unfolding currentTimes_accepted [OF False]
    by (rule degenerate_assign)
       (simp_all add: degenerate_spread assms merged_entry_degenerate [OF assms])
qed

lemma onChange_times:
  assumes "scheduled_warmup_onChange checked st = Inr st'"
  shows "currentTimes (formData st') = currentTimes (formData st)
       \<or> currentTimes (formData st') = defaultTimes"
  using assms
  by (auto simp add: scheduled_warmup_onChange_def hasExistingSchedules_def currentTimes_def
      defaultSchedules_def Let_def split: option.splits sum.splits if_splits)

lemma default_minutes:
  "time_minutes ''10:00'' = JNum 600" "time_minutes ''15:00'' = JNum 900"
  "time_minutes ''21:00'' = JNum 1260"
  by code_simp+

lemma separated_defaultTimes: "separated defaultTimes"
  by (simp add: separated_def defaultTimes_def js_index_def atLeastLessThan_upt apart_def
      active_def default_minutes interval_diff_def)

lemma well_formed_defaultTimes: "well_formed defaultTimes"
  by code_simp

lemma degenerate_defaultTimes: "degenerate defaultTimes"
  by code_simp

lemmas defaultTimes_ok = separated_defaultTimes well_formed_defaultTimes degenerate_defaultTimes

lemma enable_switch_times:
  "currentTimes (formData (page_step st (EnableSwitch checked))) = currentTimes (formData st)
   \<or> currentTimes (formData (page_step st (EnableSwitch checked))) = defaultTimes"
proof (cases "scheduled_warmup_onChange checked st")
  case (Inl e)
  then show ?thesis by simp
next
  case (Inr st')
  with onChange_times [OF Inr] show ?thesis by simp
qed

lemma time_edit_separated:
  assumes sep: "separated (currentTimes (formData st))"
      and wf: "well_formed (currentTimes (formData st))"
      and s: "input_value s"
  shows "separated (currentTimes (formData (page_step st (TimeEdit idx s))))"
proof (cases "validation_rejects idx \<lparr>u_start = Some s, u_enabled = None\<rparr> st")
  case True
  then show ?thesis using sep by (simp add: rejected_times)
next
  case False
  let ?xs = "currentTimes (formData st)"
  let ?v = "merged_entry \<lparr>u_start = Some s, u_enabled = None\<rparr> (js_index ?xs idx)"
  have "separated (js_assign (map spread_slot ?xs) idx ?v)"
  proof (rule separated_assign)
    show "separated (map spread_slot ?xs)" using sep by (simp add: separated_spread)
  next
    fix k b
    assume k: "k \<noteq> idx" and b: "js_index (map spread_slot ?xs) k = Some b"
      and av: "active ?v" and ab: "active b"
    from b have b': "js_index ?xs k = Some b" by (simp add: js_index_spread)
    from av have "s \<noteq> []" by (simp add: active_def merged_entry_time)
    with s have "valid_time s" by (simp add: input_value_def)
    then obtain m where m: "time_minutes s = JNum m" using valid_time_minutes by blast
    from ab have bs: "tr_start b \<noteq> []" and be: "tr_enabled b \<noteq> Some False"
      by (simp_all add: active_def)
    from well_formed_index [OF wf b'] bs have "valid_time (tr_start b)"
      by (simp add: input_value_def)
    then obtain n where n: "time_minutes (tr_start b) = JNum n" using valid_time_minutes by blast
    from accepted_time_no_conflict [OF False k] b' bs be
    have "\<not> js_lt (interval_diff (time_minutes s) (time_minutes (tr_start b))) (JNum 300)"
      by (simp add: too_close_def Let_def)
    then have "js_ge (interval_diff (time_minutes s) (time_minutes (tr_start b))) (JNum 300)"
      by (simp add: not_lt_ge [OF m n])
    then show "apart ?v b \<and> apart b ?v"
      by (simp add: apart_def merged_entry_time interval_diff_sym [of "time_minutes (tr_start b)"])
  qed
  then show ?thesis by (simp add: currentTimes_accepted [OF False])
qed

lemma time_edit_well_formed:
  assumes wf: "well_formed (currentTimes (formData st))" and s: "input_value s"
  shows "well_formed (currentTimes (formData (page_step st (TimeEdit idx s))))"
proof (cases "validation_rejects idx \<lparr>u_start = Some s, u_enabled = None\<rparr> st")
  case True
  then show ?thesis using wf by (simp add: rejected_times)
next
  case False
  show ?thesis
    using wf s
    by (simp add: currentTimes_accepted [OF False] well_formed_assign well_formed_spread
        merged_entry_time)
qed

lemma switch_off_separated:
  assumes sep: "separated (currentTimes (formData st))"
  shows "separated (currentTimes (formData (page_step st (RowSwitch idx False))))"
proof -
  let ?xs = "currentTimes (formData st)"
  let ?v = "merged_entry \<lparr>u_start = None, u_enabled = Some False\<rparr> (js_index ?xs idx)"
  have "\<not> active ?v" by (simp add: active_def merged_entry_switch)
  then have "separated (js_assign (map spread_slot ?xs) idx ?v)"
    using sep by (intro separated_assign) (simp_all add: separated_spread)
  then show ?thesis by (simp add: currentTimes_accepted [OF switch_never_rejected])
qed

lemma switch_well_formed:
  assumes wf: "well_formed (currentTimes (formData st))"
  shows "well_formed (currentTimes (formData (page_step st (RowSwitch idx b))))"
proof -
  let ?xs = "currentTimes (formData st)"
  have "input_value (tr_start (merged_entry \<lparr>u_start = None, u_enabled = Some b\<rparr> (js_index ?xs idx)))"
  proof (cases "js_index ?xs idx")
    case None
    then show ?thesis by (simp add: merged_entry_switch input_value_def)
  next
    case (Some e)
    with well_formed_index [OF wf Some] show ?thesis by (simp add: merged_entry_switch)
  qed
  then show ?thesis
    using wf
    by (simp add: currentTimes_accepted [OF switch_never_rejected] well_formed_assign well_formed_spread)
qed

lemma page_step_keeps_interval:
  assumes "separated (currentTimes (formData st)) \<and> well_formed (currentTimes (formData st))"
      and "keeps_interval e"
  shows "separated (currentTimes (formData (page_step st e)))
       \<and> well_formed (currentTimes (formData (page_step st e)))"
proof (cases e)
  case (EnableSwitch checked)
  with enable_switch_times [of st checked] assms(1) show ?thesis
    by (auto simp add: defaultTimes_ok simp del: page_step.simps)
next
  case (TimeEdit idx s)
  with assms show ?thesis
    by (simp add: time_edit_separated time_edit_well_formed del: page_step.simps)
next
  case (RowSwitch idx b)
  with assms show ?thesis
    by (simp add: switch_off_separated switch_well_formed del: page_step.simps)
qed

lemma page_run_keeps_interval:
  assumes "separated (currentTimes (formData st)) \<and> well_formed (currentTimes (formData st))"
      and "list_all keeps_interval es"
  shows "separated (currentTimes (formData (page_run st es)))
       \<and> well_formed (currentTimes (formData (page_run st es)))"
  using assms
proof (induction es arbitrary: st)
  case Nil
  then show ?case by (simp add: page_run_def)
next
  case (Cons e es)
  from Cons.prems have "keeps_interval e" "list_all keeps_interval es" by simp_all
  with Cons.IH [OF page_step_keeps_interval [OF Cons.prems(1) \<open>keeps_interval e\<close>]]
  show ?case by (simp add: page_run_def)
qed

lemma page_step_degenerate:
  assumes "degenerate (currentTimes (formData st))"
  shows "degenerate (currentTimes (formData (page_step st e)))"
proof (cases e)
  case (EnableSwitch checked)
  with enable_switch_times [of st checked] assms show ?thesis
    by (auto simp add: defaultTimes_ok simp del: page_step.simps)
next
  case (TimeEdit idx s)
  with assms show ?thesis by (simp add: updateTimePoint_degenerate)
next
  case (RowSwitch idx b)
  with assms show ?thesis by (simp add: updateTimePoint_degenerate)
qed

subsection \<open>Runs of page events\<close>

lemma page_run_degenerate:
  assumes "degenerate (currentTimes (formData st))"
  shows "degenerate (currentTimes (formData (page_run st es)))"
  using assms
proof (induction es arbitrary: st)
  case Nil
  then show ?case by (simp add: page_run_def)
next
  case (Cons e es)
  from Cons.IH [OF page_step_degenerate [OF Cons.prems]] show ?case
    by (simp add: page_run_def)
qed

lemma initial_times: "currentTimes (formData initialState) = defaultTimes"
  by (simp add: initialState_def initialFormData_def currentTimes_def defaultSchedules_def)

text \<open>
  Claim C2, as amended. On the settings page, let every pair of distinct windows that are
  switched on and have a time be at least 300 circular minutes apart, and let every start be
  the value of a time input (empty or \<^verbatim>\<open>HH:MM\<close>). Then the same holds after any sequence of
  time edits (accepted or rejected), of switching rows off and of uses of the enable switch.
  Switching a row on is the one event left out: it is not checked.
\<close>

theorem checked_events_keep_interval:
  assumes "separated (currentTimes (formData st))"
      and "well_formed (currentTimes (formData st))"
      and "list_all keeps_interval es"
  shows "separated (currentTimes (formData (page_run st es)))"
  using page_run_keeps_interval [of st es] assms by simp

text \<open>
  Witness for the amended C2: the initial page, with row 1 switched off, row 0 moved to
  14:00, row 1 moved to 02:00 and the enable switch turned on.
\<close>

theorem checked_events_witness:
  "separated (currentTimes (formData initialState))
   \<and> well_formed (currentTimes (formData initialState))
   \<and> list_all keeps_interval
        [RowSwitch 1 False, TimeEdit 0 ''14:00'', TimeEdit 1 ''02:00'', EnableSwitch True]
   \<and> separated (currentTimes (formData (page_run initialState
        [RowSwitch 1 False, TimeEdit 0 ''14:00'', TimeEdit 1 ''02:00'', EnableSwitch True])))"
proof -
  have a: "separated (currentTimes (formData initialState))"
    by (simp add: initial_times separated_defaultTimes)
  have b: "well_formed (currentTimes (formData initialState))"
    by (simp add: initial_times well_formed_defaultTimes)
  have v: "input_value ''14:00''" "input_value ''02:00''"
    by code_simp+
  have c: "list_all keeps_interval
        [RowSwitch 1 False, TimeEdit 0 ''14:00'', TimeEdit 1 ''02:00'', EnableSwitch True]"
    using v by simp
  from a b c checked_events_keep_interval [OF a b c] show ?thesis by blast
qed

text \<open>
  Claim C2 as stated fails. On the initial page, switching row 1 off, moving row 0 to 14:00
  and switching row 1 on again are all accepted (no toast), and leave 14:00 and 15:00 both
  switched on, 60 minutes apart. In the smart-warmup panel, adding a peak hour to the default
  list puts 12:00 next to 10:00, 120 minutes apart.
\<close>

theorem separation_counterexample:
  "toasts (page_run initialState [RowSwitch 1 False, TimeEdit 0 ''14:00'', RowSwitch 1 True]) = []
   \<and> currentTimes (formData (page_run initialState
        [RowSwitch 1 False, TimeEdit 0 ''14:00'', RowSwitch 1 True]))
       = [window ''14:00'' True, window ''15:00'' True, window ''21:00'' True]
   \<and> \<not> separated [window ''14:00'' True, window ''15:00'' True, window ''21:00'' True]
   \<and> peak_windows (addPeakHour \<lparr>enabled = True, schedules = None, monitored_models = None,
                                 peak_hours = None, warmup_mode = None\<rparr>)
       = [window ''10:00'' True, window ''15:00'' True, window ''20:00'' True, window ''12:00'' True]
   \<and> \<not> separated [window ''10:00'' True, window ''15:00'' True, window ''20:00'' True,
                    window ''12:00'' True]"
proof -
  have a: "toasts (page_run initialState [RowSwitch 1 False, TimeEdit 0 ''14:00'', RowSwitch 1 True]) = []"
    by code_simp
  have b: "currentTimes (formData (page_run initialState
        [RowSwitch 1 False, TimeEdit 0 ''14:00'', RowSwitch 1 True]))
       = [window ''14:00'' True, window ''15:00'' True, window ''21:00'' True]"
    by code_simp
  have m: "time_minutes ''14:00'' = JNum 840" "time_minutes ''12:00'' = JNum 720"
    by code_simp+
  have c: "\<not> separated [window ''14:00'' True, window ''15:00'' True, window ''21:00'' True]"
  proof
    assume "separated [window ''14:00'' True, window ''15:00'' True, window ''21:00'' True]"
    then have "apart \<lparr>tr_start = ''14:00'', tr_end = ''14:00'', tr_enabled = Some True\<rparr>
                     \<lparr>tr_start = ''15:00'', tr_end = ''15:00'', tr_enabled = Some True\<rparr>"
      by (simp add: separated_def window_def js_index_def atLeastLessThan_upt active_def)
    then show False
      by (simp add: apart_def m default_minutes interval_diff_def)
  qed
  have d: "peak_windows (addPeakHour \<lparr>enabled = True, schedules = None, monitored_models = None,
                                 peak_hours = None, warmup_mode = None\<rparr>)
       = [window ''10:00'' True, window ''15:00'' True, window ''20:00'' True, window ''12:00'' True]"
    by code_simp
  have e: "\<not> separated [window ''10:00'' True, window ''15:00'' True, window ''20:00'' True,
                    window ''12:00'' True]"
  proof
    assume "separated [window ''10:00'' True, window ''15:00'' True, window ''20:00'' True,
                    window ''12:00'' True]"
    then have "apart \<lparr>tr_start = ''10:00'', tr_end = ''10:00'', tr_enabled = Some True\<rparr>
                     \<lparr>tr_start = ''12:00'', tr_end = ''12:00'', tr_enabled = Some True\<rparr>"
      by (simp add: separated_def window_def js_index_def atLeastLessThan_upt active_def)
    then show False
      by (simp add: apart_def m default_minutes interval_diff_def)
  qed
  from a b c d e show ?thesis by blast
qed

text \<open>
  Claim C10. In the schedule of the initial form data and in the defaults of the enable switch
  every entry has its end equal to its start; and when that holds of the form data, it holds
  after every call of \<^verbatim>\<open>updateTimePoint\<close> (with any argument, accepted or rejected), after the
  enable switch, and after any run of page events.
\<close>

theorem end_equals_start:
  assumes "degenerate (currentTimes (formData st))"
  shows "degenerate (currentTimes initialFormData)
       \<and> degenerate defaultTimes
       \<and> degenerate (currentTimes (formData (updateTimePoint idx upd st)))
       \<and> degenerate (currentTimes (formData (page_step st (EnableSwitch checked))))
       \<and> degenerate (currentTimes (formData (page_run st es)))"
proof -
  have "degenerate (currentTimes initialFormData)"
    using initial_times degenerate_defaultTimes by (simp add: initialState_def)
  with assms show ?thesis
    by (simp add: degenerate_defaultTimes updateTimePoint_degenerate page_step_degenerate
        page_run_degenerate del: page_step.simps)
qed

text \<open>
  Witness for C10: the initial page, row 2 moved to 23:30, then a run that switches rows and
  the feature.
\<close>

theorem end_equals_start_witness:
  "degenerate (currentTimes (formData initialState))
   \<and> degenerate (currentTimes (formData
        (updateTimePoint 2 \<lparr>u_start = Some ''23:30'', u_enabled = None\<rparr> initialState)))
   \<and> degenerate (currentTimes (formData (page_step initialState (EnableSwitch True))))
   \<and> degenerate (currentTimes (formData (page_run initialState
        [RowSwitch 0 False, EnableSwitch False, TimeEdit 1 ''03:00'', RowSwitch 0 True])))"
proof -
  have a: "degenerate (currentTimes (formData initialState))"
    by (simp add: initial_times degenerate_defaultTimes)
  from a end_equals_start [OF a] show ?thesis by blast
qed

section \<open>Bounds of the smart-warmup panel\<close>

lemma spread_no_hole: "Hole \<notin> set (map spread_slot xs)"
proof (induction xs)
  case Nil
  then show ?case by simp
next
  case (Cons x xs)
  then show ?case by (cases x) simp_all
qed

lemma filter_index_no_hole: "Hole \<notin> set (filter_index i index xs)"
  by (induction xs arbitrary: i) auto

lemma filter_index_length:
  assumes "Hole \<notin> set xs"
  shows "length (filter_index i index xs) =
         (if i \<le> index \<and> index < i + length xs then length xs - 1 else length xs)"
  using assms
proof (induction xs arbitrary: i)
  case Nil
  then show ?case by simp
next
  case (Cons x xs)
  from Cons.prems have x: "x \<noteq> Hole" and xs: "Hole \<notin> set xs" by auto
  show ?case
  proof (cases "i = index")
    case True
    then show ?thesis using Cons.IH [OF xs, of "Suc i"] by simp
  next
    case False
    then show ?thesis using Cons.IH [OF xs, of "Suc i"] x by auto
  qed
qed

lemma filter_distinct_nonempty:
  assumes "distinct ms" "1 < length ms"
  shows "filter (\<lambda>m. m \<noteq> model) ms \<noteq> []"
proof -
  from assms(2) obtain a b rest where ms: "ms = a # b # rest"
    by (cases ms; cases "tl ms") auto
  with assms(1) have "a \<noteq> b" by simp
  then have "a \<noteq> model \<or> b \<noteq> model" by auto
  then show ?thesis by (auto simp add: ms)
qed

lemma peakHours_update [simp]:
  "peakHours (config\<lparr>peak_hours := Some hs\<rparr>) = hs"
  "peakHours (config\<lparr>monitored_models := ms\<rparr>) = peakHours config"
  "peakHours (config\<lparr>warmup_mode := md\<rparr>) = peakHours config"
  "peakHours (config\<lparr>enabled := en\<rparr>) = peakHours config"
  by (simp_all add: peakHours_def)

lemma defaultPeakHours_ok: "length defaultPeakHours = 3" "Hole \<notin> set defaultPeakHours"
  by (simp_all add: defaultPeakHours_def)

lemma handleEnabledChange_inv:
  assumes "panel_inv config"
  shows "panel_inv (handleEnabledChange en config)"
proof -
  from assms obtain ms where ms: "monitored_models config = Some ms" "ms \<noteq> []"
    by (auto simp add: panel_inv_def split: option.splits)
  have p: "peakHours (handleEnabledChange en config) = peakHours config"
    using assms
    by (cases "peak_hours config")
       (auto simp add: handleEnabledChange_def Let_def peakHours_def panel_inv_def ms)
  have m: "monitored_models (handleEnabledChange en config) = monitored_models config"
    by (simp add: handleEnabledChange_def Let_def ms)
  from assms show ?thesis by (simp add: panel_inv_def p m)
qed

lemma toggleModel_inv:
  assumes "panel_inv config"
  shows "panel_inv (toggleModel model config)"
proof -
  from assms obtain ms where ms: "monitored_models config = Some ms" "ms \<noteq> []" "distinct ms"
    by (auto simp add: panel_inv_def split: option.splits)
  show ?thesis
  proof (cases "model \<in> set ms")
    case False
    with assms ms show ?thesis by (simp add: toggleModel_def panel_inv_def)
  next
    case True
    show ?thesis
    proof (cases "length ms \<le> 1")
      case True
      with \<open>model \<in> set ms\<close> assms ms show ?thesis by (simp add: toggleModel_def)
    next
      case False
      then have "filter (\<lambda>m. m \<noteq> model) ms \<noteq> []"
        using filter_distinct_nonempty [OF ms(3)] by simp
      with False \<open>model \<in> set ms\<close> assms ms show ?thesis
        by (simp add: toggleModel_def panel_inv_def)
    qed
  qed
qed

lemma handleModeChange_inv: "panel_inv config \<Longrightarrow> panel_inv (handleModeChange mode config)"
  by (simp add: handleModeChange_def panel_inv_def)

lemma handlePeakHourChange_inv:
  assumes "panel_inv config" "index < length (peakHours config)"
  shows "panel_inv (handlePeakHourChange index v config)"
proof -
  have "Hole \<notin> set ((map spread_slot (peakHours config))[index := Elem v])"
    using spread_no_hole [of "peakHours config"]
    by (auto dest: set_update_subset_insert [THEN subsetD])
  with assms show ?thesis
    by (simp add: handlePeakHourChange_def panel_inv_def js_assign_def)
qed

lemma addPeakHour_inv:
  assumes "panel_inv config"
  shows "panel_inv (addPeakHour config)"
proof (cases "6 \<le> length (peakHours config)")
  case True
  with assms show ?thesis by (simp add: addPeakHour_def)
next
  case False
  with assms spread_no_hole [of "peakHours config"] show ?thesis
    by (simp add: addPeakHour_def panel_inv_def)
qed

lemma removePeakHour_inv:
  assumes "panel_inv config"
  shows "panel_inv (removePeakHour index config)"
proof (cases "length (peakHours config) \<le> 1")
  case True
  with assms show ?thesis by (simp add: removePeakHour_def)
next
  case False
  from assms have h: "Hole \<notin> set (peakHours config)" by (simp add: panel_inv_def)
  from False assms show ?thesis
    by (auto simp add: removePeakHour_def panel_inv_def filter_index_no_hole filter_index_length [OF h])
qed

lemma panel_step_inv:
  assumes "panel_inv config" "rendered config e"
  shows "panel_inv (panel_step config e)"
  using assms
  by (cases e)
     (simp_all add: handleEnabledChange_inv toggleModel_inv handleModeChange_inv
        handlePeakHourChange_inv addPeakHour_inv removePeakHour_inv)

lemma panel_run_inv:
  assumes "panel_inv config" "panel_run config es = Some config'"
  shows "panel_inv config'"
  using assms
proof (induction es arbitrary: config)
  case Nil
  then show ?case by simp
next
  case (Cons e es)
  from Cons.prems(2) have r: "rendered config e" and run: "panel_run (panel_step config e) es = Some config'"
    by (simp_all split: if_splits)
  from Cons.IH [OF panel_step_inv [OF Cons.prems(1) r] run] show ?case .
qed

text \<open>
  Claim C9. In the smart-warmup panel, adding a peak hour when six exist, removing one when
  one exists, and deselecting the only monitored model each leave the configuration as it is.
  A configuration with one to six peak hours (none of them a hole) and a non-empty,
  duplicate-free list of monitored models stays such under every run of panel events that
  edit rendered rows.
\<close>

theorem panel_bounds:
  "(6 \<le> length (peakHours config) \<longrightarrow> addPeakHour config = config)
   \<and> (length (peakHours config) \<le> 1 \<longrightarrow> removePeakHour index config = config)
   \<and> (monitored_models config = Some [model] \<longrightarrow> toggleModel model config = config)
   \<and> (panel_inv config \<longrightarrow> (\<forall>config'. panel_run config es = Some config' \<longrightarrow> panel_inv config'))"
  by (auto simp add: addPeakHour_def removePeakHour_def toggleModel_def intro: panel_run_inv)

text \<open>
  Witness for C9: a panel with six peak hours, a panel with one peak hour and one monitored
  model, and a run from the latter.
\<close>

theorem panel_bounds_witness:
  "6 \<le> length (peakHours (panel_config [''gemini-3-flash'']
        [Elem ''01:00'', Elem ''02:00'', Elem ''03:00'', Elem ''04:00'', Elem ''05:00'', Elem ''06:00'']))
   \<and> addPeakHour (panel_config [''gemini-3-flash'']
        [Elem ''01:00'', Elem ''02:00'', Elem ''03:00'', Elem ''04:00'', Elem ''05:00'', Elem ''06:00''])
       = panel_config [''gemini-3-flash'']
        [Elem ''01:00'', Elem ''02:00'', Elem ''03:00'', Elem ''04:00'', Elem ''05:00'', Elem ''06:00'']
   \<and> length (peakHours (panel_config [''gemini-3-flash''] [Elem ''10:00''])) \<le> 1
   \<and> removePeakHour 0 (panel_config [''gemini-3-flash''] [Elem ''10:00''])
       = panel_config [''gemini-3-flash''] [Elem ''10:00'']
   \<and> monitored_models (panel_config [''gemini-3-flash''] [Elem ''10:00'']) = Some [''gemini-3-flash'']
   \<and> toggleModel ''gemini-3-flash'' (panel_config [''gemini-3-flash''] [Elem ''10:00''])
       = panel_config [''gemini-3-flash''] [Elem ''10:00'']
   \<and> panel_inv (panel_config [''gemini-3-flash''] [Elem ''10:00''])
   \<and> panel_run (panel_config [''gemini-3-flash''] [Elem ''10:00''])
         [AddPeakHour, ToggleModel ''claude-sonnet-4-5'', PeakHourChange 1 ''18:00'',
          RemovePeakHour 0, ToggleModel ''gemini-3-flash'', RemovePeakHour 0]
       = Some (panel_config [''claude-sonnet-4-5''] [Elem ''18:00''])
   \<and> panel_inv (panel_config [''claude-sonnet-4-5''] [Elem ''18:00''])"
proof -
  let ?c6 = "panel_config [''gemini-3-flash'']
        [Elem ''01:00'', Elem ''02:00'', Elem ''03:00'', Elem ''04:00'', Elem ''05:00'', Elem ''06:00'']"
  let ?c1 = "panel_config [''gemini-3-flash''] [Elem ''10:00'']"
  let ?es = "[AddPeakHour, ToggleModel ''claude-sonnet-4-5'', PeakHourChange 1 ''18:00'',
          RemovePeakHour 0, ToggleModel ''gemini-3-flash'', RemovePeakHour 0]"
  have h6: "6 \<le> length (peakHours ?c6)" by (simp add: panel_config_def peakHours_def)
  have h1: "length (peakHours ?c1) \<le> 1" by (simp add: panel_config_def peakHours_def)
  have hm: "monitored_models ?c1 = Some [''gemini-3-flash'']" by (simp add: panel_config_def)
  have hi: "panel_inv ?c1" by (simp add: panel_config_def panel_inv_def peakHours_def)
  have hr: "panel_run ?c1 ?es = Some (panel_config [''claude-sonnet-4-5''] [Elem ''18:00''])"
    by (simp add: panel_config_def peakHours_def addPeakHour_def toggleModel_def
        handlePeakHourChange_def removePeakHour_def js_assign_def)
  from panel_bounds [of ?c6] h6 have a: "addPeakHour ?c6 = ?c6" by blast
  from panel_bounds [of ?c1 0 "''gemini-3-flash''" ?es] h1 hm hi hr
  have b: "removePeakHour 0 ?c1 = ?c1" and c: "toggleModel ''gemini-3-flash'' ?c1 = ?c1"
    and d: "panel_inv (panel_config [''claude-sonnet-4-5''] [Elem ''18:00''])"
    by blast+
  from h6 a h1 b hm c hi hr d show ?thesis by blast
qed

subsection \<open>Defaults on enabling\<close>

lemma some_start_no_time:
  assumes "no_time_set ts"
  shows "some_start ts = Inr False"
  using assms
proof (induction ts)
  case Nil
  then show ?case by simp
next
  case (Cons x xs)
  then show ?case by (cases x) (simp_all add: no_time_set_def)
qed

lemma hasExisting_unset:
  assumes "scheduleList (formData st) = None
         \<or> (\<exists>ts. scheduleList (formData st) = Some ts \<and> no_time_set ts)"
  shows "hasExistingSchedules
           (case scheduled_warmup (formData st) of None \<Rightarrow> None | Some sw \<Rightarrow> schedules sw)
         = Inr False"
  using assms
  by (auto simp add: hasExistingSchedules_def scheduleList_def some_start_no_time
      split: option.splits)

lemma hasExisting_set:
  assumes "scheduleList (formData st) = Some ts" "some_start ts = Inr True"
  shows "hasExistingSchedules
           (case scheduled_warmup (formData st) of None \<Rightarrow> None | Some sw \<Rightarrow> schedules sw)
         = Inr True"
proof -
  from assms(2) have "ts \<noteq> []" by auto
  with assms show ?thesis
    by (auto simp add: hasExistingSchedules_def scheduleList_def split: option.splits)
qed

lemma onChange_unset:
  assumes "scheduleList (formData st) = None
         \<or> (\<exists>ts. scheduleList (formData st) = Some ts \<and> no_time_set ts)"
  shows "(case scheduled_warmup_onChange checked st of
            Inl e \<Rightarrow> False
          | Inr st' \<Rightarrow> scheduleList (formData st') = Some defaultTimes)"
  by (simp add: scheduled_warmup_onChange_def Let_def hasExisting_unset [OF assms]
      scheduleList_def defaultSchedules_def)

lemma onChange_set:
  assumes "scheduleList (formData st) = Some ts" "some_start ts = Inr True"
  shows "(case scheduled_warmup_onChange checked st of
            Inl e \<Rightarrow> False
          | Inr st' \<Rightarrow> scheduleList (formData st') = Some ts)"
  using assms(1)
  by (auto simp add: scheduled_warmup_onChange_def Let_def hasExisting_set [OF assms]
      scheduleList_def split: option.splits)

lemma onChange_models:
  "(case scheduled_warmup_onChange checked st of
      Inl e \<Rightarrow> True
    | Inr st' \<Rightarrow>
        (case scheduled_warmup (formData st') of None \<Rightarrow> None | Some sw \<Rightarrow> monitored_models sw)
      = (case scheduled_warmup (formData st) of None \<Rightarrow> None | Some sw \<Rightarrow> monitored_models sw))"
  by (auto simp add: scheduled_warmup_onChange_def Let_def split: option.splits sum.splits)

lemma handleEnabledChange_models:
  assumes "monitored_models config = None \<or> monitored_models config = Some []"
  shows "monitored_models (handleEnabledChange True config) =
         Some [''gemini-3-flash'', ''gemini-3-pro-high'', ''claude-sonnet-4-5'', ''gemini-3-pro-image'']"
  using assms by (auto simp add: handleEnabledChange_def Let_def warmupModelsOptions_def)

lemma handleEnabledChange_hours:
  assumes "peak_hours config = None \<or> peak_hours config = Some []"
  shows "peak_hours (handleEnabledChange en config) =
         Some [Elem ''10:00'', Elem ''15:00'', Elem ''20:00'']"
  using assms by (auto simp add: handleEnabledChange_def Let_def defaultPeakHours_def)

lemma handleEnabledChange_populated:
  assumes "monitored_models config = Some ms" "ms \<noteq> []" "peak_hours config = Some hs" "hs \<noteq> []"
  shows "monitored_models (handleEnabledChange en config) = Some ms
       \<and> peak_hours (handleEnabledChange en config) = Some hs"
  using assms by (simp add: handleEnabledChange_def Let_def)

text \<open>
  Claim C6, as amended. In the smart-warmup panel, enabling with no monitored models fills
  in the four catalog models, and the handler fills an empty or missing list of peak hours
  with 10:00, 15:00 and 20:00. On the settings page, the enable switch fills a schedule that
  is missing, empty or without any start with the windows 10:00, 15:00 and 21:00, and it
  never changes the monitored models. Where the fields are populated, both handlers leave
  them as they are.
\<close>

theorem enabling_defaults:
  "((monitored_models config = None \<or> monitored_models config = Some []) \<longrightarrow>
      monitored_models (handleEnabledChange True config) =
        Some [''gemini-3-flash'', ''gemini-3-pro-high'', ''claude-sonnet-4-5'', ''gemini-3-pro-image''])
   \<and> ((peak_hours config = None \<or> peak_hours config = Some []) \<longrightarrow>
      peak_hours (handleEnabledChange en config) = Some [Elem ''10:00'', Elem ''15:00'', Elem ''20:00''])
   \<and> (monitored_models config = Some ms \<and> ms \<noteq> [] \<and> peak_hours config = Some hs \<and> hs \<noteq> [] \<longrightarrow>
      monitored_models (handleEnabledChange en config) = Some ms
      \<and> peak_hours (handleEnabledChange en config) = Some hs)
   \<and> ((scheduleList (formData st) = None
        \<or> (\<exists>ts. scheduleList (formData st) = Some ts \<and> no_time_set ts)) \<longrightarrow>
      (case scheduled_warmup_onChange checked st of
         Inl e \<Rightarrow> False
       | Inr st' \<Rightarrow>
           scheduleList (formData st') =
             Some [window ''10:00'' True, window ''15:00'' True, window ''21:00'' True]))
   \<and> (scheduleList (formData st) = Some ts \<and> some_start ts = Inr True \<longrightarrow>
      (case scheduled_warmup_onChange checked st of
         Inl e \<Rightarrow> False
       | Inr st' \<Rightarrow> scheduleList (formData st') = Some ts))
   \<and> (case scheduled_warmup_onChange checked st of
         Inl e \<Rightarrow> True
       | Inr st' \<Rightarrow>
           (case scheduled_warmup (formData st') of None \<Rightarrow> None | Some sw \<Rightarrow> monitored_models sw)
         = (case scheduled_warmup (formData st) of None \<Rightarrow> None | Some sw \<Rightarrow> monitored_models sw))"
proof -
  have d: "defaultTimes = [window ''10:00'' True, window ''15:00'' True, window ''21:00'' True]"
    by (simp add: defaultTimes_def window_def)
  show ?thesis
    using handleEnabledChange_models [where config = config]
      handleEnabledChange_hours [where config = config and en = en]
      handleEnabledChange_populated [where config = config and ms = ms and hs = hs and en = en]
      onChange_unset [where st = st and checked = checked]
      onChange_set [where st = st and ts = ts and checked = checked]
      onChange_models [where st = st and checked = checked]
    unfolding d by blast
qed

text \<open>
  Claim C6 as stated fails. In the panel, enabling with an empty list of peak hours gives
  10:00, 15:00 and 20:00, not 21:00. On the settings page, the enable switch leaves an empty
  list of monitored models empty.
\<close>

theorem enabling_counterexample:
  "peak_hours (handleEnabledChange True
      \<lparr>enabled = False, schedules = None, monitored_models = Some [], peak_hours = Some [],
       warmup_mode = None\<rparr>)
     = Some [Elem ''10:00'', Elem ''15:00'', Elem ''20:00'']
   \<and> Some [Elem ''10:00'', Elem ''15:00'', Elem ''20:00'']
       \<noteq> Some [Elem ''10:00'', Elem ''15:00'', Elem ''21:00'']
   \<and> (case scheduled_warmup_onChange True
             \<lparr>formData =
                \<lparr>scheduled_warmup =
                   Some \<lparr>enabled = False, schedules = None, monitored_models = Some [],
                         peak_hours = None, warmup_mode = None\<rparr>,
                 token_pool = None\<rparr>,
              toasts = []\<rparr> of
         Inl e \<Rightarrow> None
       | Inr st' \<Rightarrow> map_option monitored_models (scheduled_warmup (formData st')))
     = Some (Some [])"
  by (simp add: handleEnabledChange_def Let_def defaultPeakHours_def scheduled_warmup_onChange_def
      hasExistingSchedules_def)

text \<open>
  Witness for the amended C6: the panel with nothing set and with both lists set; the page
  with an empty schedule and with the schedule 09:00.
\<close>

theorem enabling_defaults_witness:
  "monitored_models (handleEnabledChange True
      \<lparr>enabled = False, schedules = None, monitored_models = None, peak_hours = None,
       warmup_mode = None\<rparr>)
     = Some [''gemini-3-flash'', ''gemini-3-pro-high'', ''claude-sonnet-4-5'', ''gemini-3-pro-image'']
   \<and> peak_hours (handleEnabledChange True
      \<lparr>enabled = False, schedules = None, monitored_models = None, peak_hours = None,
       warmup_mode = None\<rparr>)
     = Some [Elem ''10:00'', Elem ''15:00'', Elem ''20:00'']
   \<and> monitored_models (handleEnabledChange True (panel_config [''gemini-3-flash''] [Elem ''08:00'']))
     = Some [''gemini-3-flash'']
   \<and> peak_hours (handleEnabledChange True (panel_config [''gemini-3-flash''] [Elem ''08:00'']))
     = Some [Elem ''08:00'']
   \<and> (case scheduled_warmup_onChange True (page_with []) of
         Inl e \<Rightarrow> False
       | Inr st' \<Rightarrow>
           scheduleList (formData st') =
             Some [window ''10:00'' True, window ''15:00'' True, window ''21:00'' True])
   \<and> (case scheduled_warmup_onChange True (page_with [window ''09:00'' True]) of
         Inl e \<Rightarrow> False
       | Inr st' \<Rightarrow> scheduleList (formData st') = Some [window ''09:00'' True])"
proof -
  let ?c0 = "\<lparr>enabled = False, schedules = None, monitored_models = None, peak_hours = None,
       warmup_mode = None\<rparr>"
  let ?c1 = "panel_config [''gemini-3-flash''] [Elem ''08:00'']"
  have a0: "monitored_models ?c0 = None \<or> monitored_models ?c0 = Some []" by simp
  have b0: "peak_hours ?c0 = None \<or> peak_hours ?c0 = Some []" by simp
  have c1: "monitored_models ?c1 = Some [''gemini-3-flash''] \<and> [''gemini-3-flash''] \<noteq> []
            \<and> peak_hours ?c1 = Some [Elem ''08:00''] \<and> [Elem ''08:00''] \<noteq> ([] :: string slot list)"
    by (simp add: panel_config_def)
  have p0: "scheduleList (formData (page_with [])) = None
        \<or> (\<exists>ts. scheduleList (formData (page_with [])) = Some ts \<and> no_time_set ts)"
    by (simp add: page_with_def scheduleList_def no_time_set_def)
  have p1: "scheduleList (formData (page_with [window ''09:00'' True])) = Some [window ''09:00'' True]
            \<and> some_start [window ''09:00'' True] = Inr True"
    by (simp add: page_with_def scheduleList_def window_def)
  from enabling_defaults [where config = ?c0 and en = True] a0 b0
  have r0: "monitored_models (handleEnabledChange True ?c0)
     = Some [''gemini-3-flash'', ''gemini-3-pro-high'', ''claude-sonnet-4-5'', ''gemini-3-pro-image'']"
    and r1: "peak_hours (handleEnabledChange True ?c0) = Some [Elem ''10:00'', Elem ''15:00'', Elem ''20:00'']"
    by blast+
  from enabling_defaults [where config = ?c1 and en = True and ms = "[''gemini-3-flash'']"
      and hs = "[Elem ''08:00'']"] c1
  have r2: "monitored_models (handleEnabledChange True ?c1) = Some [''gemini-3-flash'']"
    and r3: "peak_hours (handleEnabledChange True ?c1) = Some [Elem ''08:00'']"
    by blast+
  from enabling_defaults [where st = "page_with []" and checked = True] p0
  have r4: "(case scheduled_warmup_onChange True (page_with []) of
         Inl e \<Rightarrow> False
       | Inr st' \<Rightarrow>
           scheduleList (formData st') =
             Some [window ''10:00'' True, window ''15:00'' True, window ''21:00'' True])"
    by blast
  from enabling_defaults [where st = "page_with [window ''09:00'' True]"
      and ts = "[window ''09:00'' True]" and checked = True] p1
  have r5: "(case scheduled_warmup_onChange True (page_with [window ''09:00'' True]) of
         Inl e \<Rightarrow> False
       | Inr st' \<Rightarrow> scheduleList (formData st') = Some [window ''09:00'' True])"
    by blast
  from r0 r1 r2 r3 r4 r5 show ?thesis by blast
qed

section \<open>The auto-connect hook: one tick, and overlapping ticks\<close>

lemma fire_when_idle:
  assumes "\<not> isConnecting st" "retryInterval st = Some config"
  shows "hook_step st IntervalFires = st\<lparr>tasks := tasks st @ [AwaitStatus config]\<rparr>"
  using assms by (simp add: interval_fires_def checkAndConnect_start_def)

lemma status_rejected_new_task:
  "status_settled (length ts) Rejected (st\<lparr>tasks := ts @ [AwaitStatus config]\<rparr>)
   = st\<lparr>tasks := ts @ [Finished]\<rparr>"
  by (simp add: status_settled_def)

lemma status_fulfilled_new_task:
  "status_settled (length ts) (Fulfilled status) (st\<lparr>tasks := ts @ [AwaitStatus config]\<rparr>)
   = (if needs_connect status then
        st\<lparr>isConnecting := True, tasks := ts @ [AwaitConnect (serverUrl config)],
           connect_calls := connect_calls st @ [serverUrl config]\<rparr>
      else st\<lparr>tasks := ts @ [Finished]\<rparr>)"
  by (simp add: status_settled_def)

lemma connect_settled_clears:
  assumes "j < length (tasks st)" "tasks st ! j = AwaitConnect url"
  shows "\<not> isConnecting (connect_settled j r st)"
  using assms by (simp add: connect_settled_def)

text \<open>
  Claim C5. Take a tick of the interval while no attempt is in flight. If the status query
  fails, no connect call is issued and the flag stays clear. If it succeeds, a connect call
  is issued, with the URL of the configuration, exactly when the status is
  \<^verbatim>\<open>Disconnected\<close> or starts with \<^verbatim>\<open>Error\<close>, and the flag is set exactly then. When the connect
  call of any task settles, fulfilled or rejected, the flag is cleared.
\<close>

theorem tick_without_attempt:
  assumes "\<not> isConnecting st" and "retryInterval st = Some config"
  shows "connect_calls (hook_run st [IntervalFires, StatusSettled (length (tasks st)) Rejected])
           = connect_calls st
       \<and> \<not> isConnecting (hook_run st [IntervalFires, StatusSettled (length (tasks st)) Rejected])
       \<and> in_flight (hook_run st [IntervalFires, StatusSettled (length (tasks st)) Rejected])
           = in_flight st
       \<and> connect_calls (hook_run st [IntervalFires, StatusSettled (length (tasks st)) (Fulfilled status)])
           = (if status = ''Disconnected'' \<or> prefix ''Error'' status
              then connect_calls st @ [serverUrl config] else connect_calls st)
       \<and> isConnecting (hook_run st [IntervalFires, StatusSettled (length (tasks st)) (Fulfilled status)])
           = (status = ''Disconnected'' \<or> prefix ''Error'' status)
       \<and> \<not> isConnecting (hook_run st
             [IntervalFires, StatusSettled (length (tasks st)) (Fulfilled status),
              ConnectSettled (length (tasks st)) r])
       \<and> (j < length (tasks st') \<and> tasks st' ! j = AwaitConnect url \<longrightarrow>
             \<not> isConnecting (hook_step st' (ConnectSettled j r)))"
proof -
  note f = fire_when_idle [OF assms]
  have a: "hook_run st [IntervalFires, StatusSettled (length (tasks st)) Rejected]
           = st\<lparr>tasks := tasks st @ [Finished]\<rparr>"
    by (simp add: hook_run_def f status_rejected_new_task del: hook_step.simps(2))
  have b: "hook_run st [IntervalFires, StatusSettled (length (tasks st)) (Fulfilled status)]
           = (if needs_connect status then
                st\<lparr>isConnecting := True, tasks := tasks st @ [AwaitConnect (serverUrl config)],
                   connect_calls := connect_calls st @ [serverUrl config]\<rparr>
              else st\<lparr>tasks := tasks st @ [Finished]\<rparr>)"
    by (simp add: hook_run_def f status_fulfilled_new_task del: hook_step.simps(2))
  have c: "hook_run st [IntervalFires, StatusSettled (length (tasks st)) (Fulfilled status),
              ConnectSettled (length (tasks st)) r]
           = connect_settled (length (tasks st)) r
               (hook_run st [IntervalFires, StatusSettled (length (tasks st)) (Fulfilled status)])"
    by (simp add: hook_run_def)
  have c': "\<not> isConnecting (hook_run st
             [IntervalFires, StatusSettled (length (tasks st)) (Fulfilled status),
              ConnectSettled (length (tasks st)) r])"
    unfolding c b using assms(1)
    by (simp add: connect_settled_def nth_append split: task.splits)
  have d: "j < length (tasks st') \<and> tasks st' ! j = AwaitConnect url \<longrightarrow>
             \<not> isConnecting (hook_step st' (ConnectSettled j r))"
    by (simp add: connect_settled_clears)
  from assms(1) c' d show ?thesis
    unfolding a b by (simp add: needs_connect_def in_flight_def)
qed

text \<open>
  Witness for C5: the hook at rest with the interval running for \<^verbatim>\<open>ws://a\<close>; a status of
  \<^verbatim>\<open>Disconnected\<close> issues one connect call to that URL, and its completion clears the flag.
\<close>

theorem tick_without_attempt_witness:
  "\<not> isConnecting (watching ''ws://a'')
   \<and> retryInterval (watching ''ws://a'') = Some (pool_config ''ws://a'')
   \<and> connect_calls (hook_run (watching ''ws://a'') [IntervalFires, StatusSettled 0 Rejected]) = []
   \<and> \<not> isConnecting (hook_run (watching ''ws://a'') [IntervalFires, StatusSettled 0 Rejected])
   \<and> connect_calls (hook_run (watching ''ws://a'')
        [IntervalFires, StatusSettled 0 (Fulfilled ''Disconnected'')]) = [''ws://a'']
   \<and> isConnecting (hook_run (watching ''ws://a'')
        [IntervalFires, StatusSettled 0 (Fulfilled ''Disconnected'')])
   \<and> \<not> isConnecting (hook_run (watching ''ws://a'')
        [IntervalFires, StatusSettled 0 (Fulfilled ''Disconnected''), ConnectSettled 0 Rejected])
   \<and> \<not> isConnecting (hook_step
        (hook_run (watching ''ws://a'') [IntervalFires, StatusSettled 0 (Fulfilled ''Disconnected'')])
        (ConnectSettled 0 (Fulfilled ())))"
proof -
  let ?st = "watching ''ws://a''"
  let ?st' = "hook_run ?st [IntervalFires, StatusSettled 0 (Fulfilled ''Disconnected'')]"
  have h1: "\<not> isConnecting ?st" by (simp add: watching_def)
  have h2: "retryInterval ?st = Some (pool_config ''ws://a'')" by (simp add: watching_def)
  have l: "length (tasks ?st) = 0" "connect_calls ?st = []" by (simp_all add: watching_def)
  have u: "serverUrl (pool_config ''ws://a'') = ''ws://a''"
    by (simp add: serverUrl_def cfg_server_url_def pool_config_def)
  have h3: "0 < length (tasks ?st') \<and> tasks ?st' ! 0 = AwaitConnect ''ws://a''"
    by (simp add: hook_run_def watching_def interval_fires_def checkAndConnect_start_def
        status_settled_def needs_connect_def u)
  note th = tick_without_attempt [OF h1 h2, where status = "''Disconnected''" and r = Rejected]
  note th' = tick_without_attempt [OF h1 h2, where st' = ?st' and j = 0 and url = "''ws://a''"
      and r = "Fulfilled ()"]
  from th have a: "connect_calls (hook_run ?st [IntervalFires, StatusSettled 0 Rejected]) = []"
    and b: "\<not> isConnecting (hook_run ?st [IntervalFires, StatusSettled 0 Rejected])"
    and c: "connect_calls ?st' = [''ws://a'']"
    and d: "isConnecting ?st'"
    and e: "\<not> isConnecting (hook_run ?st
        [IntervalFires, StatusSettled 0 (Fulfilled ''Disconnected''), ConnectSettled 0 Rejected])"
    unfolding l u by simp_all
  from th' h3 have f: "\<not> isConnecting (hook_step ?st' (ConnectSettled 0 (Fulfilled ())))"
    by blast
  from h1 h2 a b c d e f show ?thesis by blast
qed

text \<open>
  Claim C1 fails on the code. The flag is tested before \<^verbatim>\<open>await invoke('tokenpool_status')\<close>
  and set only after it, so two calls of \<^verbatim>\<open>checkAndConnect\<close> that are both waiting for the
  status both go on to connect. First run: the URL changes while the initial check is waiting,
  the effect runs again, both checks see \<^verbatim>\<open>Disconnected\<close>, and two connect calls are in flight.
  Second run: the interval fires while the initial check is still waiting. Third run: when the
  first of the two connect calls settles the flag is cleared although the other is in flight.
\<close>

theorem overlapping_checks_both_connect:
  "in_flight (hook_run initialHook
      [Render (pool_config ''ws://a''), Render (pool_config ''ws://b''),
       StatusSettled 0 (Fulfilled ''Disconnected''), StatusSettled 1 (Fulfilled ''Disconnected'')]) = 2
   \<and> connect_calls (hook_run initialHook
      [Render (pool_config ''ws://a''), Render (pool_config ''ws://b''),
       StatusSettled 0 (Fulfilled ''Disconnected''), StatusSettled 1 (Fulfilled ''Disconnected'')])
       = [''ws://a'', ''ws://b'']
   \<and> in_flight (hook_run initialHook
      [Render (pool_config ''ws://a''), IntervalFires,
       StatusSettled 0 (Fulfilled ''Disconnected''), StatusSettled 1 (Fulfilled ''Error: closed'')]) = 2
   \<and> in_flight (hook_run initialHook
      [Render (pool_config ''ws://a''), IntervalFires,
       StatusSettled 0 (Fulfilled ''Disconnected''), StatusSettled 1 (Fulfilled ''Disconnected''),
       ConnectSettled 0 Rejected]) = 1
   \<and> \<not> isConnecting (hook_run initialHook
      [Render (pool_config ''ws://a''), IntervalFires,
       StatusSettled 0 (Fulfilled ''Disconnected''), StatusSettled 1 (Fulfilled ''Disconnected''),
       ConnectSettled 0 Rejected])"
  by code_simp

end
